theory Spec2Isabelle
  imports Main
begin

section \<open>Users, channels and roles\<close>

text \<open>
  The permission levels of \<^verbatim>\<open>UserPermission\<close> (named \<^verbatim>\<open>UserRole\<close> in the later
  sources). Identifiers of users and channels are strings, as in \<^verbatim>\<open>BotUser.id\<close> and
  \<^verbatim>\<open>BotChannel.id\<close>; a channel also carries its own prefix, the empty string when it
  has none.
\<close>

datatype UserPermission = USER | ADMIN | OWNER

record BotUser =
  user_id :: string

record BotChannel =
  channel_id :: string
  channel_prefix :: string

text \<open>
  Modelled from the spec: the role order behind \<^verbatim>\<open>BotUser.hasPermission\<close> (the file
  \<^verbatim>\<open>bot_user.ts\<close> is not among the sources). A requirement is satisfied by an actual role
  iff the actual role is the same or a stricter one in the order USER < ADMIN < OWNER.
\<close>

fun ordinal :: "UserPermission \<Rightarrow> nat" where
  "ordinal USER = 0"
| "ordinal ADMIN = 1"
| "ordinal OWNER = 2"

definition satisfies :: "UserPermission \<Rightarrow> UserPermission \<Rightarrow> bool" where
  "satisfies actual required = (ordinal required \<le> ordinal actual)"

section \<open>Telegram: resolving the permission of a user\<close>

text \<open>
  What a remote call of the Telegram API can raise. The calls of
  \<^verbatim>\<open>getUserPermission\<close> are answers of the platform: each either fails or returns.
\<close>

datatype error = RemoteError string | TypeError | SyntaxError

record Chat =
  all_members_are_administrators :: "bool option"
  chat_type :: string

record ChatMember =
  member_user_id :: int

record TelegramPlatform =
  owners :: "string list option"
  getChat :: "string \<Rightarrow> error + Chat"
  getChatAdministrators :: "string \<Rightarrow> error + ChatMember list option"

text \<open>The private field \<^verbatim>\<open>channelAuthorID\<close> of \<^verbatim>\<open>TelegramBot\<close>.\<close>

definition channelAuthorID :: string where
  "channelAuthorID = ''-322''"

text \<open>\<^verbatim>\<open>Number.prototype.toString\<close> on the integer identifiers of Telegram.\<close>

definition digit_char :: "nat \<Rightarrow> char" where
  "digit_char d = ''0123456789'' ! d"

fun nat_toString :: "nat \<Rightarrow> string" where
  "nat_toString n =
     (if n < 10 then [digit_char n] else nat_toString (n div 10) @ [digit_char (n mod 10)])"

definition toString :: "int \<Rightarrow> string" where
  "toString i = (if i < 0 then CHR ''-'' # nat_toString (nat (- i)) else nat_toString (nat i))"

text \<open>
  \<^verbatim>\<open>getOwners\<close>: the configured owner ids, \<^verbatim>\<open>owners || []\<close>.
\<close>

definition getOwners :: "TelegramPlatform \<Rightarrow> string list" where
  "getOwners p = (case owners p of None \<Rightarrow> [] | Some ids \<Rightarrow> ids)"

text \<open>
  The body of the \<^verbatim>\<open>try\<close> block of \<^verbatim>\<open>getUserPermission\<close>. \<open>Inl e\<close> is an exception
  thrown by a remote call, \<open>Inr (Some r)\<close> a \<^verbatim>\<open>return r\<close> inside the block, and
  \<open>Inr None\<close> reaching the end of the block without returning.
\<close>

definition getUserPermission_try ::
  "TelegramPlatform \<Rightarrow> BotUser \<Rightarrow> BotChannel \<Rightarrow> error + UserPermission option" where
  "getUserPermission_try p user channel =
     (if user_id user = channelAuthorID then Inr (Some ADMIN)
      else
        let ownerIds = getOwners p in
        if user_id user \<in> set ownerIds then Inr (Some OWNER)
        else
          case getChat p (channel_id channel) of
            Inl e \<Rightarrow> Inl e
          | Inr chat \<Rightarrow>
              if all_members_are_administrators chat = Some True \<or> chat_type chat = ''private''
              then Inr (Some ADMIN)
              else
                case getChatAdministrators p (channel_id channel) of
                  Inl e \<Rightarrow> Inl e
                | Inr res \<Rightarrow>
                    let chatAdmins = (case res of None \<Rightarrow> [] | Some ms \<Rightarrow> ms);
                        adminIds = map (\<lambda>admin. toString (member_user_id admin)) chatAdmins
                    in if user_id user \<in> set adminIds then Inr (Some ADMIN) else Inr None)"

text \<open>
  \<^verbatim>\<open>getUserPermission\<close>: the \<^verbatim>\<open>catch\<close> logs the error, and every path that did not
  return inside the \<^verbatim>\<open>try\<close> block ends in \<^verbatim>\<open>return UserPermission.USER\<close>. The result
  is the role together with the errors handed to \<^verbatim>\<open>logError\<close>.
\<close>

definition getUserPermission ::
  "TelegramPlatform \<Rightarrow> BotUser \<Rightarrow> BotChannel \<Rightarrow> UserPermission \<times> error list" where
  "getUserPermission p user channel =
     (case getUserPermission_try p user channel of
        Inl e \<Rightarrow> (USER, [e])
      | Inr (Some r) \<Rightarrow> (r, [])
      | Inr None \<Rightarrow> (USER, []))"

text \<open>
  The resolver as the specification words its failure semantics: a failing remote call
  in the channel-metadata check or in the administrator-list check is logged and the
  resolution goes on with the next check.
\<close>

definition resolveRole_spec ::
  "TelegramPlatform \<Rightarrow> BotUser \<Rightarrow> BotChannel \<Rightarrow> UserPermission" where
  "resolveRole_spec p user channel =
     (if user_id user = channelAuthorID then ADMIN
      else if user_id user \<in> set (getOwners p) then OWNER
      else if (case getChat p (channel_id channel) of
                 Inl e \<Rightarrow> False
               | Inr chat \<Rightarrow> all_members_are_administrators chat = Some True
                             \<or> chat_type chat = ''private'') then ADMIN
      else if (case getChatAdministrators p (channel_id channel) of
                 Inl e \<Rightarrow> False
               | Inr None \<Rightarrow> False
               | Inr (Some ms) \<Rightarrow> user_id user \<in> set (map (\<lambda>a. toString (member_user_id a)) ms))
           then ADMIN
      else USER)"

text \<open>What the platform reports about a channel and a user, when its calls return.\<close>

definition reportsDefaultAdmin :: "TelegramPlatform \<Rightarrow> BotChannel \<Rightarrow> bool" where
  "reportsDefaultAdmin p channel =
     (case getChat p (channel_id channel) of
        Inl e \<Rightarrow> False
      | Inr chat \<Rightarrow> all_members_are_administrators chat = Some True \<or> chat_type chat = ''private'')"

definition chatReturned :: "TelegramPlatform \<Rightarrow> BotChannel \<Rightarrow> bool" where
  "chatReturned p channel = (case getChat p (channel_id channel) of Inl e \<Rightarrow> False | Inr chat \<Rightarrow> True)"

definition listedAsAdmin :: "TelegramPlatform \<Rightarrow> BotUser \<Rightarrow> BotChannel \<Rightarrow> bool" where
  "listedAsAdmin p user channel =
     (case getChatAdministrators p (channel_id channel) of
        Inl e \<Rightarrow> False
      | Inr None \<Rightarrow> False
      | Inr (Some ms) \<Rightarrow> user_id user \<in> set (map (\<lambda>a. toString (member_user_id a)) ms))"


section \<open>Subscriptions by game (the first data layout)\<close>

text \<open>
  \<^verbatim>\<open>BotClient.addSubscriber\<close> and \<^verbatim>\<open>removeSubscriber\<close> of \<^verbatim>\<open>bot.ts\<close> work on the
  parsed subscriber file: an object indexed by the name of the client and then by the
  name of the game, holding the list of subscribed channels. \<^verbatim>\<open>getSubscribers\<close> parses
  the file afresh on every call, and only \<^verbatim>\<open>setSubscribers\<close> writes it. The class
  \<^verbatim>\<open>BotChannel\<close> is not among the sources: its methods \<^verbatim>\<open>isEqual\<close> and \<^verbatim>\<open>toJSON\<close> are
  parameters.
\<close>

record Game =
  game_name :: string
  game_label :: string

type_synonym Subscribers = "string \<Rightarrow> (string \<Rightarrow> string list option) option"

text \<open>The loop of \<^verbatim>\<open>addSubscriber\<close> looking for the channel among the entries.\<close>

fun isSubscribed :: "(BotChannel \<Rightarrow> string \<Rightarrow> bool) \<Rightarrow> BotChannel \<Rightarrow> string list \<Rightarrow> bool" where
  "isSubscribed isEqual channel [] = False"
| "isSubscribed isEqual channel (sub # gameSubs) =
     (if isEqual channel sub then True else isSubscribed isEqual channel gameSubs)"

text \<open>
  Indexing a missing client, or iterating over a missing game entry, is a
  \<^verbatim>\<open>TypeError\<close> of the runtime. The result is what the call returns or throws, and
  what it writes: the object handed to \<^verbatim>\<open>setSubscribers\<close>, or \<open>None\<close> when the call
  does not write. \<open>persisted\<close> is the content of the file after the call.
\<close>

definition addSubscriber ::
  "(BotChannel \<Rightarrow> string \<Rightarrow> bool) \<Rightarrow> (BotChannel \<Rightarrow> string) \<Rightarrow> string \<Rightarrow> Subscribers
     \<Rightarrow> BotChannel \<Rightarrow> Game \<Rightarrow> (error + bool) \<times> Subscribers option" where
  "addSubscriber isEqual toJSON name file channel game =
     (let subscribers = file in
      case subscribers name of
        None \<Rightarrow> (Inl TypeError, None)
      | Some byGame \<Rightarrow>
          (case byGame (game_name game) of
             None \<Rightarrow> (Inl TypeError, None)
           | Some gameSubs \<Rightarrow>
               if isSubscribed isEqual channel gameSubs then (Inr False, None)
               else (Inr True,
                     Some (subscribers(name \<mapsto> byGame(game_name game \<mapsto> gameSubs @ [toJSON channel]))))))"

text \<open>
  The loop of \<^verbatim>\<open>removeSubscriber\<close>: the first entry equal to the channel is spliced
  out; \<open>None\<close> when the loop ends with \<^verbatim>\<open>hasSubbed\<close> still false.
\<close>

fun spliceSubscriber ::
  "(BotChannel \<Rightarrow> string \<Rightarrow> bool) \<Rightarrow> BotChannel \<Rightarrow> string list \<Rightarrow> string list option" where
  "spliceSubscriber isEqual channel [] = None"
| "spliceSubscriber isEqual channel (sub # gameSubs) =
     (if isEqual channel sub then Some gameSubs
      else map_option (\<lambda>rest. sub # rest) (spliceSubscriber isEqual channel gameSubs))"

definition removeSubscriber ::
  "(BotChannel \<Rightarrow> string \<Rightarrow> bool) \<Rightarrow> string \<Rightarrow> Subscribers
     \<Rightarrow> BotChannel \<Rightarrow> Game \<Rightarrow> (error + bool) \<times> Subscribers option" where
  "removeSubscriber isEqual name file channel game =
     (let subscribers = file in
      case subscribers name of
        None \<Rightarrow> (Inl TypeError, None)
      | Some byGame \<Rightarrow>
          (case byGame (game_name game) of
             None \<Rightarrow> (Inl TypeError, None)
           | Some gameSubs \<Rightarrow>
               (case spliceSubscriber isEqual channel gameSubs of
                  None \<Rightarrow> (Inr False, None)
                | Some gameSubs' \<Rightarrow>
                    (Inr True, Some (subscribers(name \<mapsto> byGame(game_name game \<mapsto> gameSubs')))))))"

definition persisted :: "Subscribers \<Rightarrow> Subscribers option \<Rightarrow> Subscribers" where
  "persisted file written = (case written of None \<Rightarrow> file | Some file' \<Rightarrow> file')"

section \<open>Strings\<close>

text \<open>
  Strings are lists of 8-bit characters: the model covers the texts whose UTF-16 code
  units are below 256. A string literal of the logic cannot hold a backslash, so the
  sources of patterns are written with \<open>%\<close> in its place and \<open>pat\<close> puts the
  backslash back: \<open>pat ''%s*''\<close> is the pattern source \<^verbatim>\<open>\s*\<close>.
\<close>

definition backslash :: char where "backslash = CHR 0x5C"

definition pat :: "string \<Rightarrow> string" where
  "pat s = map (\<lambda>c. if c = CHR ''%'' then backslash else c) s"

text \<open>The characters matched by \<^verbatim>\<open>\s\<close> and removed by \<^verbatim>\<open>trim\<close>, and the line terminators.\<close>

definition whiteSpace :: "char list" where
  "whiteSpace = [CHR 0x09, CHR 0x0A, CHR 0x0B, CHR 0x0C, CHR 0x0D, CHR 0x20, CHR 0xA0]"

definition lineTerminators :: "char list" where
  "lineTerminators = [CHR 0x0A, CHR 0x0D]"

definition digits :: "char list" where
  "digits = ''0123456789''"

definition syntaxCharacters :: "char list" where
  "syntaxCharacters = ''^$.*+?()[]{}|'' @ [backslash]"

text \<open>\<^verbatim>\<open>String.prototype.trim\<close>, \<^verbatim>\<open>split\<close> on one character and \<^verbatim>\<open>Array.prototype.join\<close>.\<close>

definition trim :: "string \<Rightarrow> string" where
  "trim s = rev (dropWhile (\<lambda>c. c \<in> set whiteSpace) (rev (dropWhile (\<lambda>c. c \<in> set whiteSpace) s)))"

fun split :: "char \<Rightarrow> string \<Rightarrow> string list" where
  "split sep [] = [] # []"
| "split sep (c # s) =
     (if c = sep then [] # split sep s
      else (case split sep s of [] \<Rightarrow> [c] # [] | l # ls \<Rightarrow> (c # l) # ls))"

fun join :: "string \<Rightarrow> string list \<Rightarrow> string" where
  "join sep [] = []"
| "join sep [l] = l"
| "join sep (l # ls) = l @ sep @ join sep ls"

text \<open>
  \<^verbatim>\<open>EscapeRegex\<close> is the package \<^verbatim>\<open>escape-string-regexp\<close>: it puts a backslash before
  each of the characters \<^verbatim>\<open>| \ { } ( ) [ ] ^ $ + * ? .\<close> and leaves the others.
\<close>

definition EscapeRegex :: "string \<Rightarrow> string" where
  "EscapeRegex s = concat (map (\<lambda>c. if c \<in> set syntaxCharacters then [backslash, c] else [c]) s)"

section \<open>Regular expressions\<close>

text \<open>
  The patterns of the sources are compiled by \<^verbatim>\<open>new RegExp\<close> (or written as literals)
  and run by \<^verbatim>\<open>exec\<close> and \<^verbatim>\<open>replace\<close>. The model is a backtracking matcher for the
  fragment of the pattern syntax that the sources use: characters, \<^verbatim>\<open>.\<close>, classes,
  \<^verbatim>\<open>^\<close> and \<^verbatim>\<open>$\<close> (no flag \<^verbatim>\<open>m\<close>), sequence, alternation, the quantifiers
  \<^verbatim>\<open>* + ?\<close> and their lazy forms, groups (capturing, named, non-capturing) and
  negative lookahead. Groups are numbered by their opening parenthesis.
\<close>

datatype regex =
    Chr char
  | AnyChar
  | Cls bool "char list"
  | Bol
  | Eol
  | Eps
  | Seq regex regex
  | Alt regex regex
  | Star bool regex
  | Plus bool regex
  | Opt bool regex
  | Grp nat regex
  | NGrp regex
  | NegLook regex

type_synonym caps = "(nat \<times> string) list"

text \<open>
  At the start of every iteration of a quantifier the captures of the groups inside
  the quantified item are cleared.
\<close>

primrec groupsOf :: "regex \<Rightarrow> nat list" where
  "groupsOf (Chr c) = []"
| "groupsOf AnyChar = []"
| "groupsOf (Cls neg xs) = []"
| "groupsOf Bol = []"
| "groupsOf Eol = []"
| "groupsOf Eps = []"
| "groupsOf (Seq a b) = groupsOf a @ groupsOf b"
| "groupsOf (Alt a b) = groupsOf a @ groupsOf b"
| "groupsOf (Star greedy a) = groupsOf a"
| "groupsOf (Plus greedy a) = groupsOf a"
| "groupsOf (Opt greedy a) = groupsOf a"
| "groupsOf (Grp k a) = k # groupsOf a"
| "groupsOf (NGrp a) = groupsOf a"
| "groupsOf (NegLook a) = groupsOf a"

definition resetCaps :: "regex \<Rightarrow> caps \<Rightarrow> caps" where
  "resetCaps a cs = filter (\<lambda>(k, v). k \<notin> set (groupsOf a)) cs"

text \<open>
  A match is tried on the rest \<open>s\<close> of an input of length \<open>n\<close>, with the
  captures so far; the result lists every way the pattern can match there, in the order
  in which backtracking tries them, as the rest after the match and the captures. An
  iteration of a quantifier that consumes nothing is rejected, as the language
  definition says, so \<open>iterate\<close> runs at most once per remaining character.
\<close>

fun iterate :: "nat \<Rightarrow> bool \<Rightarrow> (string \<Rightarrow> caps \<Rightarrow> (string \<times> caps) list) \<Rightarrow> string \<Rightarrow> caps
    \<Rightarrow> (string \<times> caps) list" where
  "iterate 0 greedy step s cs = [(s, cs)]"
| "iterate (Suc k) greedy step s cs =
     (let more = concat (map (\<lambda>(s', cs'). if length s' < length s then iterate k greedy step s' cs' else [])
                   (step s cs))
      in if greedy then more @ [(s, cs)] else (s, cs) # more)"

primrec m :: "regex \<Rightarrow> nat \<Rightarrow> string \<Rightarrow> caps \<Rightarrow> (string \<times> caps) list" where
  "m (Chr c) n s cs = (case s of [] \<Rightarrow> [] | x # s' \<Rightarrow> if x = c then [(s', cs)] else [])"
| "m AnyChar n s cs = (case s of [] \<Rightarrow> [] | x # s' \<Rightarrow> if x \<in> set lineTerminators then [] else [(s', cs)])"
| "m (Cls neg xs) n s cs = (case s of [] \<Rightarrow> [] | x # s' \<Rightarrow> if (x \<in> set xs) \<noteq> neg then [(s', cs)] else [])"
| "m Bol n s cs = (if length s = n then [(s, cs)] else [])"
| "m Eol n s cs = (if s = [] then [(s, cs)] else [])"
| "m Eps n s cs = [(s, cs)]"
| "m (Seq a b) n s cs = concat (map (\<lambda>(s', cs'). m b n s' cs') (m a n s cs))"
| "m (Alt a b) n s cs = m a n s cs @ m b n s cs"
| "m (Star greedy a) n s cs =
     iterate (length s) greedy (\<lambda>s' cs'. m a n s' (resetCaps a cs')) s cs"
| "m (Plus greedy a) n s cs =
     concat (map (\<lambda>(s1, cs1). iterate (length s1) greedy (\<lambda>s' cs'. m a n s' (resetCaps a cs')) s1 cs1)
               (m a n s (resetCaps a cs)))"
| "m (Opt greedy a) n s cs =
     (let once = filter (\<lambda>(s', cs'). length s' < length s) (m a n s (resetCaps a cs))
      in if greedy then once @ [(s, cs)] else (s, cs) # once)"
| "m (Grp k a) n s cs =
     map (\<lambda>(s', cs'). (s', (k, take (length s - length s') s) # cs')) (m a n s cs)"
| "m (NGrp a) n s cs = m a n s cs"
| "m (NegLook a) n s cs = (if m a n s cs = [] then [(s, cs)] else [])"

text \<open>
  \<open>scan\<close> is the search of \<^verbatim>\<open>exec\<close>: the first position from which the pattern
  matches, with the first way it matches there. It returns the input from the start of
  the match, the rest after the match, and the captures.
\<close>

fun scan :: "regex \<Rightarrow> nat \<Rightarrow> string \<Rightarrow> (string \<times> string \<times> caps) option" where
  "scan r n [] = (case m r n [] [] of [] \<Rightarrow> None | (e, cs) # _ \<Rightarrow> Some ([], e, cs))"
| "scan r n (c # s) =
     (case m r n (c # s) [] of [] \<Rightarrow> scan r n s | (e, cs) # _ \<Rightarrow> Some (c # s, e, cs))"

text \<open>
  The parser of pattern sources reads the source once from left to right, with a stack
  of open groups; each frame holds the finished alternatives and the items of the
  current alternative, both in reverse. \<open>None\<close> is a source that is rejected: a syntax
  error, or syntax outside the fragment.
\<close>

datatype kind = KTop | KGrp nat | KNGrp | KNegLook

datatype mode = MNormal | MName | MClass bool "char list"

type_synonym frame = "kind \<times> regex list \<times> regex list"

fun mkSeq :: "regex list \<Rightarrow> regex" where
  "mkSeq [] = Eps"
| "mkSeq [a] = a"
| "mkSeq (a # as) = Seq a (mkSeq as)"

fun mkAlt :: "regex list \<Rightarrow> regex" where
  "mkAlt [] = Eps"
| "mkAlt [a] = a"
| "mkAlt (a # as) = Alt a (mkAlt as)"

definition disjunction :: "regex list \<Rightarrow> regex list \<Rightarrow> regex" where
  "disjunction alts items = mkAlt (rev (mkSeq (rev items) # alts))"

fun wrap :: "kind \<Rightarrow> regex \<Rightarrow> regex" where
  "wrap KTop a = a"
| "wrap (KGrp k) a = Grp k a"
| "wrap KNGrp a = NGrp a"
| "wrap KNegLook a = NegLook a"

fun quantifiable :: "regex \<Rightarrow> bool" where
  "quantifiable (Chr c) = True"
| "quantifiable AnyChar = True"
| "quantifiable (Cls neg xs) = True"
| "quantifiable (Grp k a) = True"
| "quantifiable (NGrp a) = True"
| "quantifiable a = False"

fun addItem :: "regex \<Rightarrow> frame list \<Rightarrow> frame list option" where
  "addItem a [] = None"
| "addItem a ((k, alts, items) # st) = Some ((k, alts, a # items) # st)"

fun quantify :: "(regex \<Rightarrow> regex) \<Rightarrow> frame list \<Rightarrow> frame list option" where
  "quantify q ((k, alts, a # items) # st) =
     (if quantifiable a then Some ((k, alts, q a # items) # st) else None)"
| "quantify q st = None"

fun escapeAtom :: "char \<Rightarrow> regex option" where
  "escapeAtom c =
     (if c = CHR ''s'' then Some (Cls False whiteSpace)
      else if c = CHR ''S'' then Some (Cls True whiteSpace)
      else if c = CHR ''d'' then Some (Cls False digits)
      else if c = CHR ''D'' then Some (Cls True digits)
      else if c = CHR ''n'' then Some (Chr (CHR 0x0A))
      else if c = CHR ''r'' then Some (Chr (CHR 0x0D))
      else if c = CHR ''t'' then Some (Chr (CHR 0x09))
      else if c \<in> set syntaxCharacters \<or> c \<in> set ''/!-@#%&=:;,<>_~ '' then Some (Chr c)
      else None)"

fun classEscape :: "char \<Rightarrow> char list option" where
  "classEscape c =
     (if c = CHR ''s'' then Some whiteSpace
      else if c = CHR ''d'' then Some digits
      else if c = CHR ''n'' then Some [CHR 0x0A]
      else if c = CHR ''r'' then Some [CHR 0x0D]
      else if c = CHR ''t'' then Some [CHR 0x09]
      else if c \<in> set syntaxCharacters \<or> c \<in> set ''/!-@#%&=:;,<>_~ '' then Some [c]
      else None)"

fun parse :: "mode \<Rightarrow> frame list \<Rightarrow> nat \<Rightarrow> string \<Rightarrow> (regex \<times> nat) option" where
  "parse MNormal st g [] =
     (case st of [(KTop, alts, items)] \<Rightarrow> Some (disjunction alts items, g) | _ \<Rightarrow> None)"
| "parse MName st g [] = None"
| "parse (MClass neg xs) st g [] = None"
| "parse MName st g (c # cs) =
     (if c = CHR ''>'' then parse MNormal st g cs else parse MName st g cs)"
| "parse (MClass neg xs) st g (c # cs) =
     (if c = CHR '']'' then
        (case addItem (Cls neg xs) st of None \<Rightarrow> None | Some st' \<Rightarrow> parse MNormal st' g cs)
      else if c = CHR ''-'' \<and> xs \<noteq> [] \<and> take 1 cs \<noteq> '']'' then None
      else if c = backslash then
        (case cs of
           [] \<Rightarrow> None
         | e # cs' \<Rightarrow>
             (case classEscape e of None \<Rightarrow> None
              | Some ys \<Rightarrow> parse (MClass neg (xs @ ys)) st g cs'))
      else parse (MClass neg (xs @ [c])) st g cs)"
| "parse MNormal st g (c # cs) =
     (if c = backslash then
        (case cs of
           [] \<Rightarrow> None
         | e # cs' \<Rightarrow>
             (case escapeAtom e of None \<Rightarrow> None
              | Some a \<Rightarrow> (case addItem a st of None \<Rightarrow> None | Some st' \<Rightarrow> parse MNormal st' g cs')))
      else if c = CHR ''('' then
        (if take 1 cs \<noteq> ''?'' then parse MNormal ((KGrp (Suc g), [], []) # st) (Suc g) cs
         else if take 2 cs = ''?:'' then parse MNormal ((KNGrp, [], []) # st) g (drop 2 cs)
         else if take 2 cs = ''?!'' then parse MNormal ((KNegLook, [], []) # st) g (drop 2 cs)
         else if take 3 cs = ''?<='' \<or> take 3 cs = ''?<!'' then None
         else if take 2 cs = ''?<'' then parse MName ((KGrp (Suc g), [], []) # st) (Suc g) (drop 2 cs)
         else None)
      else if c = CHR '')'' then
        (case st of
           (k, alts, items) # (k', alts', items') # st' \<Rightarrow>
             parse MNormal ((k', alts', wrap k (disjunction alts items) # items') # st') g cs
         | _ \<Rightarrow> None)
      else if c = CHR ''|'' then
        (case st of
           (k, alts, items) # st' \<Rightarrow> parse MNormal ((k, mkSeq (rev items) # alts, []) # st') g cs
         | [] \<Rightarrow> None)
      else if c = CHR ''*'' \<or> c = CHR ''+'' \<or> c = CHR ''?'' then
        (let lazy = (take 1 cs = ''?'');
             q = (if c = CHR ''*'' then Star (\<not> lazy) else if c = CHR ''+'' then Plus (\<not> lazy)
                  else Opt (\<not> lazy))
         in case quantify q st of
              None \<Rightarrow> None
            | Some st' \<Rightarrow> parse MNormal st' g (if lazy then drop 1 cs else cs))
      else if c = CHR ''['' then
        (if take 1 cs = ''^'' then parse (MClass True []) st g (drop 1 cs)
         else parse (MClass False []) st g cs)
      else if c = CHR ''{'' \<or> c = CHR ''}'' \<or> c = CHR '']'' then None
      else
        (case addItem (if c = CHR ''^'' then Bol else if c = CHR ''$'' then Eol
                       else if c = CHR ''.'' then AnyChar else Chr c) st of
           None \<Rightarrow> None
         | Some st' \<Rightarrow> parse MNormal st' g cs))"

definition compile :: "string \<Rightarrow> (regex \<times> nat) option" where
  "compile src = parse MNormal [(KTop, [], [])] 0 src"

text \<open>
  \<open>exec\<close> gives the match and its captures, \<open>test\<close> only whether there is one.
\<close>

definition exec :: "regex \<times> nat \<Rightarrow> string \<Rightarrow> (string \<times> string \<times> caps) option" where
  "exec re w = scan (fst re) (length w) w"

definition test :: "regex \<times> nat \<Rightarrow> string \<Rightarrow> bool" where
  "test re w = (exec re w \<noteq> None)"

text \<open>
  The replacement text of \<^verbatim>\<open>replace\<close>: \<^verbatim>\<open>$$\<close> is a dollar sign, \<^verbatim>\<open>$&\<close> the match
  and \<^verbatim>\<open>$d\<close> the capture of group \<open>d\<close> when the pattern has that many groups
  (empty when the group did not take part). The patterns here have fewer than ten
  groups, so a reference has one digit.
\<close>

fun digitValue :: "char list \<Rightarrow> char \<Rightarrow> nat" where
  "digitValue [] d = 0"
| "digitValue (x # xs) d = (if x = d then 0 else Suc (digitValue xs d))"

fun expand :: "string \<Rightarrow> nat \<Rightarrow> string \<Rightarrow> caps \<Rightarrow> string" where
  "expand [] g matched cs = []"
| "expand (c # t) g matched cs =
     (if c = CHR ''$'' then
        (case t of
           [] \<Rightarrow> [c]
         | d # t' \<Rightarrow>
             if d = CHR ''$'' then CHR ''$'' # expand t' g matched cs
             else if d = CHR ''&'' then matched @ expand t' g matched cs
             else if d \<in> set digits \<and> 0 < digitValue digits d \<and> digitValue digits d \<le> g then
               (case map_of cs (digitValue digits d) of None \<Rightarrow> [] | Some v \<Rightarrow> v)
               @ expand t' g matched cs
             else c # expand t g matched cs)
      else c # expand t g matched cs)"

text \<open>
  \<^verbatim>\<open>replace\<close> with a pattern that has the flag \<^verbatim>\<open>g\<close>: every match is replaced, the
  search going on after the match (one character further after an empty match).
  \<open>replaceFirst\<close> is \<^verbatim>\<open>replace\<close> without the flag.
\<close>

fun replaceLoop :: "nat \<Rightarrow> regex \<times> nat \<Rightarrow> string \<Rightarrow> nat \<Rightarrow> string \<Rightarrow> string" where
  "replaceLoop 0 re t n s = s"
| "replaceLoop (Suc k) re t n s =
     (case scan (fst re) n s of
        None \<Rightarrow> s
      | Some (b, e, cs) \<Rightarrow>
          take (length s - length b) s
          @ expand t (snd re) (take (length b - length e) b) cs
          @ (if length e < length b then replaceLoop k re t n e
             else (case b of [] \<Rightarrow> [] | c # b' \<Rightarrow> c # replaceLoop k re t n b')))"

definition replaceAll :: "string \<Rightarrow> string \<Rightarrow> string \<Rightarrow> string" where
  "replaceAll src t w =
     (case compile src of None \<Rightarrow> w | Some re \<Rightarrow> replaceLoop (Suc (length w)) re t (length w) w)"

definition replaceFirst :: "string \<Rightarrow> string \<Rightarrow> string \<Rightarrow> string" where
  "replaceFirst src t w =
     (case compile src of
        None \<Rightarrow> w
      | Some re \<Rightarrow>
          (case exec re w of
             None \<Rightarrow> w
           | Some (b, e, cs) \<Rightarrow>
               take (length w - length b) w
               @ expand t (snd re) (take (length b - length e) b) cs @ e))"

section \<open>What a pattern can match\<close>

text \<open>
  The rests that a pattern can leave when it is matched at the start of a text,
  whatever the captures and the order of the attempts: the meaning of a pattern as a
  set. It is used to state what a compiled pattern matches for every text.
\<close>

fun iterateR :: "nat \<Rightarrow> (string \<Rightarrow> string set) \<Rightarrow> string \<Rightarrow> string set" where
  "iterateR 0 step s = {s}"
| "iterateR (Suc k) step s =
     insert s (\<Union>s' \<in> step s. if length s' < length s then iterateR k step s' else {})"

primrec rests :: "regex \<Rightarrow> nat \<Rightarrow> string \<Rightarrow> string set" where
  "rests (Chr c) n s = (case s of [] \<Rightarrow> {} | x # s' \<Rightarrow> if x = c then {s'} else {})"
| "rests AnyChar n s = (case s of [] \<Rightarrow> {} | x # s' \<Rightarrow> if x \<in> set lineTerminators then {} else {s'})"
| "rests (Cls neg xs) n s = (case s of [] \<Rightarrow> {} | x # s' \<Rightarrow> if (x \<in> set xs) \<noteq> neg then {s'} else {})"
| "rests Bol n s = (if length s = n then {s} else {})"
| "rests Eol n s = (if s = [] then {s} else {})"
| "rests Eps n s = {s}"
| "rests (Seq a b) n s = (\<Union>s' \<in> rests a n s. rests b n s')"
| "rests (Alt a b) n s = rests a n s \<union> rests b n s"
| "rests (Star greedy a) n s = iterateR (length s) (rests a n) s"
| "rests (Plus greedy a) n s = (\<Union>s' \<in> rests a n s. iterateR (length s') (rests a n) s')"
| "rests (Opt greedy a) n s = insert s {s' \<in> rests a n s. length s' < length s}"
| "rests (Grp k a) n s = rests a n s"
| "rests (NGrp a) n s = rests a n s"
| "rests (NegLook a) n s = (if rests a n s = {} then {s} else {})"

text \<open>
  How many times a character occurs at least in any text that a pattern matches, and
  the same for the source of a pattern (zero for a source that does not compile).
\<close>

primrec needsCount :: "regex \<Rightarrow> char \<Rightarrow> nat" where
  "needsCount (Chr x) c = (if x = c then 1 else 0)"
| "needsCount AnyChar c = 0"
| "needsCount (Cls neg xs) c = 0"
| "needsCount Bol c = 0"
| "needsCount Eol c = 0"
| "needsCount Eps c = 0"
| "needsCount (Seq a b) c = needsCount a c + needsCount b c"
| "needsCount (Alt a b) c = min (needsCount a c) (needsCount b c)"
| "needsCount (Star greedy a) c = 0"
| "needsCount (Plus greedy a) c = needsCount a c"
| "needsCount (Opt greedy a) c = 0"
| "needsCount (Grp k a) c = needsCount a c"
| "needsCount (NGrp a) c = needsCount a c"
| "needsCount (NegLook a) c = 0"

definition ruleNeed :: "string \<Rightarrow> char \<Rightarrow> nat" where
  "ruleNeed src c = (case compile src of None \<Rightarrow> 0 | Some re \<Rightarrow> needsCount (fst re) c)"

text \<open>
  The pattern that the address clause compiles to, for a mention tag, a channel prefix
  and a default prefix that are taken literally.
\<close>

definition addressAST :: "string \<Rightarrow> string \<Rightarrow> string \<Rightarrow> regex" where
  "addressAST tag cp bp =
     Seq Bol (Seq (Star True (Cls False whiteSpace))
       (Seq (Grp 1
              (Alt (Grp 2 (mkSeq (map Chr tag)))
                (Alt (Grp 3 (Seq (Grp 4 (mkSeq (map Chr cp)))
                               (Opt True (Grp 5 (mkSeq (Star True (Cls False whiteSpace) # map Chr tag))))))
                     (Grp 6 (Seq (Grp 7 (mkSeq (map Chr bp)))
                               (Seq (Star True (Cls False whiteSpace)) (Grp 8 (mkSeq (map Chr tag)))))))))
            (Star True (Cls False whiteSpace))))"

text \<open>
  The address of the bot as the specification words it: after optional white space the
  text begins with the bare mention tag, with the channel prefix, optionally followed
  by the tag, or with the default prefix of the bot followed by the tag (white space
  may stand before the tag).
\<close>

definition beginsWithAddress :: "string \<Rightarrow> string \<Rightarrow> string \<Rightarrow> string \<Rightarrow> bool" where
  "beginsWithAddress tag cp bp w =
     (\<exists>ws rest. set ws \<subseteq> set whiteSpace
        \<and> (w = ws @ tag @ rest
           \<or> w = ws @ cp @ rest
           \<or> (\<exists>ws'. set ws' \<subseteq> set whiteSpace \<and> w = ws @ cp @ ws' @ tag @ rest)
           \<or> (\<exists>ws'. set ws' \<subseteq> set whiteSpace \<and> w = ws @ bp @ ws' @ tag @ rest)))"

section \<open>Commands and their triggers\<close>

text \<open>
  The class \<^verbatim>\<open>Command\<close>: its fields without the callback, whose execution is
  recorded as an event. The bot gives its name, its default prefix and its mention tag
  (the result of \<^verbatim>\<open>getUserTag\<close>).
\<close>

record Command =
  label :: string
  description :: string
  triggerLabel :: string
  trigger :: string
  permission :: UserPermission
  hasPrefix :: bool

record Bot =
  bot_name :: string
  bot_prefix :: string
  bot_userTag :: string

text \<open>
  Modelled from the spec: \<^verbatim>\<open>Channel.getPrefix\<close> (the file \<^verbatim>\<open>channel.ts\<close> is not among the
  sources). The prefix of a channel defaults to the configured default of the bot.
\<close>

definition getPrefix :: "Bot \<Rightarrow> BotChannel \<Rightarrow> string" where
  "getPrefix client channel = (if channel_prefix channel = [] then bot_prefix client else channel_prefix channel)"

text \<open>
  The address clause that \<^verbatim>\<open>Command.getRegExp\<close> and the trigger of the command group
  both build: the template
  \<^verbatim>\<open>^\s*((${userTag})|((${channelPrefix})(\s*${userTag})?)|((${bot.prefix})\s*(${userTag})))\s*\<close>
  with \<^verbatim>\<open>userTag\<close> and \<^verbatim>\<open>channelPrefix\<close> passed through \<^verbatim>\<open>EscapeRegex\<close> and
  \<^verbatim>\<open>bot.prefix\<close> interpolated as it is.
\<close>

definition addressClause :: "Bot \<Rightarrow> BotChannel \<Rightarrow> string" where
  "addressClause client channel =
     (let userTag = EscapeRegex (bot_userTag client);
          channelPrefix = EscapeRegex (getPrefix client channel)
      in pat ''^%s*(('' @ userTag @ '')|(('' @ channelPrefix @ pat '')(%s*'' @ userTag
         @ '')?)|(('' @ bot_prefix client @ pat '')%s*('' @ userTag @ pat '')))%s*'')"

text \<open>\<^verbatim>\<open>new RegExp\<close> throws a \<^verbatim>\<open>SyntaxError\<close> on a source it rejects.\<close>

definition newRegExp :: "string \<Rightarrow> error + regex \<times> nat" where
  "newRegExp src = (case compile src of None \<Rightarrow> Inl SyntaxError | Some re \<Rightarrow> Inr re)"

definition getRegExp :: "Bot \<Rightarrow> BotChannel \<Rightarrow> Command \<Rightarrow> error + regex \<times> nat" where
  "getRegExp client channel command =
     (let prefix = (if hasPrefix command then addressClause client channel else []);
          regexString = prefix @ trigger command
      in newRegExp regexString)"

text \<open>
  The trigger of the command group of \<^verbatim>\<open>commands.ts\<close>: the address clause followed by
  \<^verbatim>\<open>(?<group>.*?)(\s*${userTag})?\s*$\<close>.
\<close>

definition groupTrigger :: "Bot \<Rightarrow> BotChannel \<Rightarrow> error + regex \<times> nat" where
  "groupTrigger client channel =
     newRegExp (addressClause client channel @ pat ''(?<group>.*?)(%s*'' @ EscapeRegex (bot_userTag client)
                @ pat '')?%s*$'')"

section \<open>Dispatch of a message to the registered commands\<close>

text \<open>
  What a dispatch does that can be observed: the callback of a command runs, or the
  sender is told that the permission is missing. Log entries are left out.
\<close>

datatype event =
    Callback string
  | InsufficientPermission string UserPermission
  | SendMessage string string
  | Reply string

record Message =
  chat_id :: int
  from_id :: "int option"
  msg_text :: string

text \<open>
  Modelled from the spec: \<^verbatim>\<open>BotUser.hasPermission\<close> (not among the sources) resolves the
  role of the user on the channel with the resolver of the bot and compares it with the
  required role.
\<close>

definition hasPermission :: "TelegramPlatform \<Rightarrow> BotUser \<Rightarrow> BotChannel \<Rightarrow> UserPermission \<Rightarrow> bool" where
  "hasPermission p user channel required =
     satisfies (fst (getUserPermission p user channel)) required"

text \<open>
  \<^verbatim>\<open>Command.execute\<close>: the callback runs when the user has the required permission,
  otherwise the channel is told which permission is needed.
\<close>

definition execute :: "TelegramPlatform \<Rightarrow> BotChannel \<Rightarrow> BotUser \<Rightarrow> Command \<Rightarrow> event list" where
  "execute p channel user command =
     (if hasPermission p user channel (permission command) then [Callback (label command)]
      else [InsufficientPermission (channel_id channel) (permission command)])"

text \<open>
  \<^verbatim>\<open>TelegramBot.onMessage\<close>, the listener that \<^verbatim>\<open>registerCommand\<close> installs for one
  command: the pattern of the command is compiled for the channel and run on the text
  of the message; on a match the command is executed for the sender, the placeholder
  author standing in when the message has none. An exception is caught and logged. The
  channel is the result of \<^verbatim>\<open>getChannelByID\<close>, which is not among the sources.
\<close>

definition onMessage ::
  "Bot \<Rightarrow> TelegramPlatform \<Rightarrow> BotChannel \<Rightarrow> Message \<Rightarrow> Command \<Rightarrow> event list" where
  "onMessage client p channel msg command =
     (case getRegExp client channel command of
        Inl e \<Rightarrow> []
      | Inr reg \<Rightarrow>
          (case exec reg (msg_text msg) of
             None \<Rightarrow> []
           | Some regMatch \<Rightarrow>
               let userID = (case from_id msg of Some i \<Rightarrow> toString i | None \<Rightarrow> channelAuthorID)
               in execute p channel \<lparr>user_id = userID\<rparr> command))"

text \<open>
  \<^verbatim>\<open>registerCommands\<close> registers every command, in the order of the list, with the bot:
  each registration appends one listener. An incoming message is handed to every
  listener in the order of registration.
\<close>

definition registerCommand :: "Command list \<Rightarrow> Command \<Rightarrow> Command list" where
  "registerCommand listeners command = listeners @ [command]"

definition registerCommands :: "Command list \<Rightarrow> Command list" where
  "registerCommands commands = foldl registerCommand [] commands"

definition emitMessage ::
  "Bot \<Rightarrow> TelegramPlatform \<Rightarrow> BotChannel \<Rightarrow> Message \<Rightarrow> Command list \<Rightarrow> event list" where
  "emitMessage client p channel msg listeners = concat (map (onMessage client p channel msg) listeners)"

fun handlersRun :: "event list \<Rightarrow> string list" where
  "handlersRun [] = []"
| "handlersRun (Callback l # es) = l # handlersRun es"
| "handlersRun (e # es) = handlersRun es"

text \<open>Whether the pattern of a command, compiled for the channel, matches a text.\<close>

definition triggered :: "Bot \<Rightarrow> BotChannel \<Rightarrow> Command \<Rightarrow> string \<Rightarrow> bool" where
  "triggered client channel command w =
     (case getRegExp client channel command of Inl e \<Rightarrow> False | Inr reg \<Rightarrow> test reg w)"

text \<open>The standard commands: label, description, trigger label, trigger and permission.\<close>

definition helpCommand :: Command where
  "helpCommand = \<lparr>label = ''Help'', description = ''Display a list of all available commands.'',
     triggerLabel = ''help'', trigger = pat ''help%s*$'', permission = USER, hasPrefix = True\<rparr>"

definition aboutCommand :: Command where
  "aboutCommand = \<lparr>label = ''About'', description = ''Display info about the bot.'',
     triggerLabel = ''about'', trigger = pat ''(about)|(info)%s*$'', permission = USER,
     hasPrefix = True\<rparr>"

definition gamesCommand :: Command where
  "gamesCommand = \<lparr>label = ''Games'', description = ''Display all available games.'',
     triggerLabel = ''games'', trigger = pat ''games%s*$'', permission = USER, hasPrefix = True\<rparr>"

definition subscribeCommand :: Command where
  "subscribeCommand = \<lparr>label = ''Subscribe'', description = ''Subscribe to the given game's feed.'',
     triggerLabel = ''subscribe <game name>'', trigger = ''sub(scribe)?(?<alias>.*)'',
     permission = ADMIN, hasPrefix = True\<rparr>"

definition unsubscribeCommand :: Command where
  "unsubscribeCommand = \<lparr>label = ''Unsubscribe'',
     description = ''Unsubscribe from the given game's feed'',
     triggerLabel = ''unsubscribe <game name>'', trigger = ''unsub(scribe)?(?<alias>.*)'',
     permission = ADMIN, hasPrefix = True\<rparr>"

definition prefixCommand :: Command where
  "prefixCommand = \<lparr>label = ''Prefix'',
     description = ''Change the bot's prefix used in this channel.'',
     triggerLabel = ''prefix'', trigger = ''prefix(?<newPrefix>.*)$'',
     permission = ADMIN, hasPrefix = True\<rparr>"

definition commands :: "Command list" where
  "commands = [helpCommand, aboutCommand, gamesCommand, subscribeCommand, unsubscribeCommand,
     prefixCommand]"


text \<open>
  Whether the address clause alone, compiled for the channel, matches a text; \<open>None\<close>
  when the clause does not compile.
\<close>

definition addressClauseMatches :: "Bot \<Rightarrow> BotChannel \<Rightarrow> string \<Rightarrow> bool option" where
  "addressClauseMatches client channel w =
     (case newRegExp (addressClause client channel) of Inl e \<Rightarrow> None | Inr re \<Rightarrow> Some (test re w))"

section \<open>The command group and its help text\<close>

text \<open>
  The actions of \<^verbatim>\<open>commands.ts\<close> with what the help text needs of them: name,
  description and required role. The classes \<^verbatim>\<open>Action\<close>, \<^verbatim>\<open>SimpleAction\<close> and
  \<^verbatim>\<open>NoLabelAction\<close> are not among the sources; an action built without a role has the
  default role USER, and the method \<^verbatim>\<open>channelHelp\<close> of an action is a parameter.
\<close>

record Action =
  act_name :: string
  act_description :: string
  act_role :: UserPermission

definition groupCommands :: "Action list" where
  "groupCommands =
     [\<lparr>act_name = ''start'', act_description = ''Get started with the GameFeeder.'', act_role = USER\<rparr>,
      \<lparr>act_name = ''help'', act_description = ''Display a list of all available commands.'',
       act_role = USER\<rparr>,
      \<lparr>act_name = ''settings'',
       act_description = ''Display an overview of the settings you can configure for the bot.'',
       act_role = USER\<rparr>,
      \<lparr>act_name = ''about'', act_description = ''Display info about the bot.'', act_role = USER\<rparr>,
      \<lparr>act_name = ''games'', act_description = ''Display all available games.'', act_role = USER\<rparr>,
      \<lparr>act_name = ''flip'', act_description = ''Flip a coin.'', act_role = USER\<rparr>,
      \<lparr>act_name = ''roll'', act_description = ''Roll some dice.'', act_role = USER\<rparr>,
      \<lparr>act_name = ''stats'', act_description = ''Display statistics about the bot.'', act_role = USER\<rparr>,
      \<lparr>act_name = ''ping'', act_description = ''Test the delay of the bot.'', act_role = USER\<rparr>,
      \<lparr>act_name = ''debug'', act_description = ''Display some useful debug information.'',
       act_role = USER\<rparr>,
      \<lparr>act_name = ''subscribe'', act_description = ''Subscribe to the given game's feed.'',
       act_role = ADMIN\<rparr>,
      \<lparr>act_name = ''unsubscribe'', act_description = ''Unsubscribe from the given game's feed'',
       act_role = ADMIN\<rparr>,
      \<lparr>act_name = ''prefix'', act_description = ''Change the bot's prefix used in this channel.'',
       act_role = ADMIN\<rparr>,
      \<lparr>act_name = ''notifyAll'', act_description = ''Notify all subscribed users.'', act_role = OWNER\<rparr>,
      \<lparr>act_name = ''notifyGameSubs'', act_description = ''Notify all subs of a game.'',
       act_role = OWNER\<rparr>,
      \<lparr>act_name = ''telegramCmds'',
       act_description = ''Get the string to properly register the commands on Telegram.'',
       act_role = OWNER\<rparr>]"

text \<open>
  The \<^verbatim>\<open>switch\<close> on the role of a command in the filter of the help generator. The
  role of the caller is an argument of the generator; \<open>None\<close> is a call that passes
  no role.
\<close>

fun visibleTo :: "UserPermission option \<Rightarrow> Action \<Rightarrow> bool" where
  "visibleTo role cmd =
     (case act_role cmd of
        OWNER \<Rightarrow> role = Some OWNER
      | ADMIN \<Rightarrow> role = Some OWNER \<or> role = Some ADMIN
      | USER \<Rightarrow> True)"

text \<open>
  The help generator of the group: the commands that pass the filter, each rendered by
  its \<^verbatim>\<open>channelHelp\<close> after the given line prefix, joined by line breaks.
\<close>

definition groupHelp ::
  "(Action \<Rightarrow> BotChannel \<Rightarrow> string \<Rightarrow> string) \<Rightarrow> Bot \<Rightarrow> Action list \<Rightarrow> BotChannel \<Rightarrow> string
     \<Rightarrow> UserPermission option \<Rightarrow> string" where
  "groupHelp channelHelp client cmds channel prefix role =
     (let cmdPrefix = EscapeRegex (getPrefix client channel);
          cmdLabels = map (\<lambda>cmd. prefix @ channelHelp cmd channel cmdPrefix)
                        (filter (visibleTo role) cmds)
      in join [CHR 0x0A] cmdLabels)"


text \<open>
  Modelled from the spec: the method \<^verbatim>\<open>channelHelp\<close> of the class \<^verbatim>\<open>CommandGroup\<close> (the file
  \<^verbatim>\<open>command_group.ts\<close> is not among the sources) renders the help of the group with the
  help generator the group was built with, from the channel, the line prefix and the
  role it is given. Here it is the method of the group \<^verbatim>\<open>commands\<close>.
\<close>

definition commands_channelHelp ::
  "(Action \<Rightarrow> BotChannel \<Rightarrow> string \<Rightarrow> string) \<Rightarrow> Bot \<Rightarrow> BotChannel \<Rightarrow> string
     \<Rightarrow> UserPermission option \<Rightarrow> string" where
  "commands_channelHelp actionHelp client channel prefix role =
     groupHelp actionHelp client groupCommands channel prefix role"

text \<open>
  A message as the handlers of \<^verbatim>\<open>commands.ts\<close> receive it: the user who sent it, the
  channel it was sent in, and its content.
\<close>

record ChannelMessage =
  message_user :: BotUser
  message_channel :: BotChannel
  message_content :: string

text \<open>
  The handler of \<^verbatim>\<open>helpCmd\<close>. It calls \<^verbatim>\<open>commands.channelHelp(message.channel, '- ')\<close>:
  the channel and the line prefix are passed and no role is, which is the role \<open>None\<close>.
  The result is the reply to the message.
\<close>

definition helpCmd ::
  "(BotChannel \<Rightarrow> string \<Rightarrow> UserPermission option \<Rightarrow> string) \<Rightarrow> ChannelMessage \<Rightarrow> event" where
  "helpCmd channelHelp message =
     (let helpMD = ''You can use the following commands:'' @ [CHR 0x0A]
                     @ channelHelp (message_channel message) ''- '' None
      in Reply helpMD)"

section \<open>The prefix command (the second data layout)\<close>

text \<open>
  The subscriber data of \<^verbatim>\<open>DataManager\<close>: for the name of each bot the list of its
  channels, each with its game subscriptions and, optionally, label, prefix and the
  flag \<^verbatim>\<open>disabled\<close>.
\<close>

record Subscriber =
  gameSubs :: "string list"
  sub_id :: string
  sub_label :: "string option"
  sub_prefix :: "string option"
  disabled :: "bool option"

type_synonym SubscriberData = "string \<Rightarrow> Subscriber list option"

text \<open>\<^verbatim>\<open>Array.prototype.findIndex\<close>, with \<open>None\<close> for the result \<^verbatim>\<open>-1\<close>.\<close>

fun findIndex :: "('a \<Rightarrow> bool) \<Rightarrow> 'a list \<Rightarrow> nat option" where
  "findIndex P [] = None"
| "findIndex P (x # xs) = (if P x then Some 0 else map_option Suc (findIndex P xs))"

text \<open>\<^verbatim>\<open>splice(i, 1)\<close>.\<close>

definition splice1 :: "nat \<Rightarrow> 'a list \<Rightarrow> 'a list" where
  "splice1 i xs = take i xs @ drop (Suc i) xs"

text \<open>A prefix that is absent or empty is falsy.\<close>

definition falsy :: "string option \<Rightarrow> bool" where
  "falsy v = (v = None \<or> v = Some [])"

text \<open>
  The state a handler works on: the channel of the message, the subscriber file and
  the messages sent so far.
\<close>

record HandlerState =
  st_channel :: BotChannel
  st_file :: SubscriberData
  st_events :: "event list"

text \<open>
  The handler of \<^verbatim>\<open>prefixCmd\<close>. Its parameters are the parts that are not among the
  sources: \<^verbatim>\<open>bot.removeData\<close>, which works on the subscriber file and reports whether it
  removed data, \<^verbatim>\<open>channel.isEqual\<close>, and the answer \<^verbatim>\<open>permissions.canWrite\<close> of the
  permission check of the bot. \<open>newPrefixGroup\<close> is the capture \<^verbatim>\<open>match.groups.newPrefix\<close>. The
  result is the exception thrown, if any, and the state afterwards.
\<close>

definition prefixCmd ::
  "(SubscriberData \<Rightarrow> BotChannel \<Rightarrow> bool \<times> SubscriberData) \<Rightarrow> (BotChannel \<Rightarrow> string \<Rightarrow> bool)
     \<Rightarrow> bool \<Rightarrow> Bot \<Rightarrow> string option \<Rightarrow> HandlerState \<Rightarrow> error option \<times> HandlerState" where
  "prefixCmd removeData isEqual canWrite client newPrefixGroup st =
     (let channel = st_channel st;
          newPrefix = (case newPrefixGroup of None \<Rightarrow> [] | Some v \<Rightarrow> if v = [] then [] else trim v)
      in
      if newPrefix = [] then
        (None, st\<lparr>st_events := st_events st @
           [Reply (''The prefix currently used on this channel is `'' @ getPrefix client channel
                   @ ''`.'' @ [CHR 0x0A]
                   @ ''Use `'' @ getPrefix client channel
                   @ ''prefix <new prefix>` to use an other prefix.'' @ [CHR 0x0A]
                   @ ''Use `'' @ getPrefix client channel
                   @ ''prefix reset` to reset the prefix to the default''
                   @ ''(`'' @ bot_prefix client @ ''`).'')]\<rparr>)
      else
        let newPrefix = (if newPrefix = ''reset'' then bot_prefix client else newPrefix) in
        if \<not> canWrite then
          (None, st\<lparr>st_file := snd (removeData (st_file st) channel)\<rparr>)
        else
          let announced = st_events st @
                [SendMessage (channel_id channel)
                   (''Changing the bot's prefix on this channel to `'' @ newPrefix @ ''`.'')];
              channel = channel\<lparr>channel_prefix := newPrefix\<rparr>;
              st = st\<lparr>st_events := announced, st_channel := channel\<rparr>;
              subscribers = st_file st
          in
          case subscribers (bot_name client) of
            None \<Rightarrow> (Some TypeError, st)
          | Some channels \<Rightarrow>
              (case findIndex (\<lambda>ch. isEqual channel (sub_id ch)) channels of
                 Some existingChannelId \<Rightarrow>
                   let existingChannel = (channels ! existingChannelId)
                         \<lparr>sub_prefix := Some (if newPrefix \<noteq> bot_prefix client then newPrefix else [])\<rparr>;
                       channels =
                         (if gameSubs existingChannel = [] \<and> falsy (sub_prefix existingChannel)
                          then splice1 existingChannelId channels
                          else channels[existingChannelId := existingChannel])
                   in (None, st\<lparr>st_file := subscribers(bot_name client \<mapsto> channels)\<rparr>)
               | None \<Rightarrow>
                   let channels = channels @
                         [\<lparr>gameSubs = [], sub_id = channel_id channel, sub_label = None,
                           sub_prefix = Some newPrefix, disabled = None\<rparr>]
                   in (None, st\<lparr>st_file := subscribers(bot_name client \<mapsto> channels)\<rparr>)))"

text \<open>
  Modelled from the spec: \<^verbatim>\<open>removeData\<close> of the bot (the later \<^verbatim>\<open>bot.ts\<close> is not among
  the sources), for concrete runs of the handler. It removes the persisted record of
  the channel, with its subscriptions and its prefix, and reports whether there was one.
\<close>

definition removeData :: "(BotChannel \<Rightarrow> string \<Rightarrow> bool) \<Rightarrow> Bot \<Rightarrow> SubscriberData \<Rightarrow> BotChannel
    \<Rightarrow> bool \<times> SubscriberData" where
  "removeData isEqual client file channel =
     (case file (bot_name client) of
        None \<Rightarrow> (False, file)
      | Some channels \<Rightarrow>
          (case findIndex (\<lambda>ch. isEqual channel (sub_id ch)) channels of
             None \<Rightarrow> (False, file)
           | Some i \<Rightarrow> (True, file(bot_name client \<mapsto> splice1 i channels))))"

section \<open>Telegram: conversion of markdown\<close>

text \<open>
  The replacements of \<^verbatim>\<open>msgFromMarkdown\<close> that run on the whole text, in their order:
  the source of each pattern (all have the flag \<^verbatim>\<open>g\<close>) and its replacement text.
\<close>

definition markdownRules :: "(string \<times> string) list" where
  "markdownRules =
     [(pat ''%[%!%[%]%((.*)%)%]%((.*)%)'', ''[Image]($1) ([Link]($2))''),
      (pat ''%[%!%[(.*)%]%((.*)%)%]%((.*)%)'', ''[$1]($2) ([Link]($3))''),
      (pat ''%!%[%]%((.*)%)'', ''[Image]($1)''),
      (pat ''%!%[(.*)%]%((.*)%)'', ''[$1]($2)''),
      (pat ''%*(?!%*)(.+)(?!%*)%*'', ''_$1_''),
      (pat ''__(.+)__'', ''*$1*''),
      (pat ''%*%*(.+)%*%*'', ''*$1*''),
      (pat ''%*(.*)[ %t]*%[(.*)%]%((.*)%)[ %t]*(.*)%*'', ''*$1* [$2]($3) *$4*''),
      (pat ''__(.*)[ %t]*%[(.*)%]%((.*)%)[ %t]*(.*)__'', ''__$1__ [$2]($3) __$4__''),
      (pat ''%[%*(.*)%*%]%((.*)%)'', ''[$1]($2)''),
      (pat ''%[__(.*)__%]%((.*)%)'', ''[$1]($2)''),
      (pat ''%*%[(.*)%]%((.*)%)%*'', ''[$1]($2)''),
      (pat ''__%[(.*)%]%((.*)%)__'', ''[$1]($2)''),
      (pat ''%*%*'', ''''),
      (pat ''____'', ''''),
      (pat ''%s*%n%s*%n%s*'', [CHR 0x0A, CHR 0x0A])]"

text \<open>The two replacements made on every line: headings and list items.\<close>

definition formatLine :: "string \<Rightarrow> string" where
  "formatLine line =
     replaceFirst (pat ''^%s*%*%s+'') ''- '' (replaceFirst (pat ''^%s*##?#?%s*(.*)'') ''*$1*'' line)"

text \<open>
  \<^verbatim>\<open>msgFromMarkdown\<close>: an empty text gives the empty text; otherwise the replacements
  run in order, the text is split at line breaks, every line is formatted, and the
  result is every line followed by a line break.
\<close>

definition msgFromMarkdown :: "string \<Rightarrow> string" where
  "msgFromMarkdown markdownText =
     (if markdownText = [] then []
      else
        let markdown = foldl (\<lambda>md (src, t). replaceAll src t md) markdownText markdownRules;
            lineArray = map formatLine (split (CHR 0x0A) markdown)
        in concat (map (\<lambda>line. line @ [CHR 0x0A]) lineArray))"

text \<open>
  A plain text of one line: it holds none of the characters \<^verbatim>\<open>! * _ #\<close> and no line
  break.
\<close>

definition plainText :: "string \<Rightarrow> bool" where
  "plainText t = (set t \<inter> set ''!*_#'' = {} \<and> CHR 0x0A \<notin> set t)"

section \<open>Properties of the permission resolver\<close>

lemma satisfies_order:
  "satisfies a r = (ordinal r \<le> ordinal a)"
  by (simp add: satisfies_def)

text \<open>
  Claim C1, as stated, fails at its fourth step: a user who is not the placeholder
  author and not an owner, and whom the platform lists among the administrators of the
  channel, gets USER when the channel-metadata call fails, because the failure ends
  the resolution before the list of administrators is asked for.
\<close>

theorem getUserPermission_listed_admin_counterexample:
  "user_id \<lparr>user_id = ''17''\<rparr> \<noteq> channelAuthorID
   \<and> user_id \<lparr>user_id = ''17''\<rparr>
        \<notin> set (getOwners
                 \<lparr>owners = None, getChat = (\<lambda>c. Inl (RemoteError ''chat not found'')),
                  getChatAdministrators =
                    (\<lambda>c. Inr (Some [\<lparr>member_user_id = 5\<rparr>, \<lparr>member_user_id = 17\<rparr>]))\<rparr>)
   \<and> \<not> reportsDefaultAdmin
          \<lparr>owners = None, getChat = (\<lambda>c. Inl (RemoteError ''chat not found'')),
           getChatAdministrators =
             (\<lambda>c. Inr (Some [\<lparr>member_user_id = 5\<rparr>, \<lparr>member_user_id = 17\<rparr>]))\<rparr>
          \<lparr>channel_id = ''-1002'', channel_prefix = ''''\<rparr>
   \<and> listedAsAdmin
        \<lparr>owners = None, getChat = (\<lambda>c. Inl (RemoteError ''chat not found'')),
         getChatAdministrators =
           (\<lambda>c. Inr (Some [\<lparr>member_user_id = 5\<rparr>, \<lparr>member_user_id = 17\<rparr>]))\<rparr>
        \<lparr>user_id = ''17''\<rparr> \<lparr>channel_id = ''-1002'', channel_prefix = ''''\<rparr>
   \<and> fst (getUserPermission
        \<lparr>owners = None, getChat = (\<lambda>c. Inl (RemoteError ''chat not found'')),
         getChatAdministrators =
           (\<lambda>c. Inr (Some [\<lparr>member_user_id = 5\<rparr>, \<lparr>member_user_id = 17\<rparr>]))\<rparr>
        \<lparr>user_id = ''17''\<rparr> \<lparr>channel_id = ''-1002'', channel_prefix = ''''\<rparr>) = USER
   \<and> fst (getUserPermission
        \<lparr>owners = None, getChat = (\<lambda>c. Inl (RemoteError ''chat not found'')),
         getChatAdministrators =
           (\<lambda>c. Inr (Some [\<lparr>member_user_id = 5\<rparr>, \<lparr>member_user_id = 17\<rparr>]))\<rparr>
        \<lparr>user_id = ''17''\<rparr> \<lparr>channel_id = ''-1002'', channel_prefix = ''''\<rparr>) \<noteq> ADMIN"
  by (simp add: getUserPermission_def getUserPermission_try_def reportsDefaultAdmin_def
      listedAsAdmin_def channelAuthorID_def getOwners_def toString_def digit_char_def)

text \<open>
  Claim C1, amended. The resolver follows the ordered, short-circuiting algorithm: the
  placeholder author of a channel post is ADMIN; otherwise a configured owner is OWNER,
  whatever the platform reports; otherwise ADMIN when the channel-metadata call
  returns and the channel reports that all members are administrators or that it is a
  private conversation; otherwise ADMIN when the channel-metadata call has returned
  and the platform lists the user among the administrators of the channel; otherwise
  USER.
\<close>

theorem getUserPermission_algorithm:
  "(user_id user = channelAuthorID \<longrightarrow> fst (getUserPermission p user channel) = ADMIN)
   \<and> (user_id user \<noteq> channelAuthorID \<and> user_id user \<in> set (getOwners p)
        \<longrightarrow> fst (getUserPermission p user channel) = OWNER)
   \<and> (user_id user \<noteq> channelAuthorID \<and> user_id user \<notin> set (getOwners p)
        \<and> reportsDefaultAdmin p channel
        \<longrightarrow> fst (getUserPermission p user channel) = ADMIN)
   \<and> (user_id user \<noteq> channelAuthorID \<and> user_id user \<notin> set (getOwners p)
        \<and> chatReturned p channel \<and> \<not> reportsDefaultAdmin p channel
        \<and> listedAsAdmin p user channel
        \<longrightarrow> fst (getUserPermission p user channel) = ADMIN)
   \<and> (user_id user \<noteq> channelAuthorID \<and> user_id user \<notin> set (getOwners p)
        \<and> \<not> reportsDefaultAdmin p channel
        \<and> \<not> (chatReturned p channel \<and> listedAsAdmin p user channel)
        \<longrightarrow> fst (getUserPermission p user channel) = USER)"
  by (auto simp: getUserPermission_def getUserPermission_try_def reportsDefaultAdmin_def
      chatReturned_def listedAsAdmin_def Let_def split: sum.splits option.splits)

theorem getUserPermission_algorithm_witness:
  "fst (getUserPermission
          \<lparr>owners = Some [''42''], getChat = (\<lambda>c. Inl (RemoteError ''down'')),
           getChatAdministrators = (\<lambda>c. Inl (RemoteError ''down''))\<rparr>
          \<lparr>user_id = ''-322''\<rparr> \<lparr>channel_id = ''-1001'', channel_prefix = ''''\<rparr>) = ADMIN
   \<and> fst (getUserPermission
          \<lparr>owners = Some [''42''],
           getChat = (\<lambda>c. Inr \<lparr>all_members_are_administrators = None, chat_type = ''group''\<rparr>),
           getChatAdministrators = (\<lambda>c. Inr (Some [\<lparr>member_user_id = 7\<rparr>]))\<rparr>
          \<lparr>user_id = ''42''\<rparr> \<lparr>channel_id = ''-1001'', channel_prefix = ''''\<rparr>) = OWNER
   \<and> fst (getUserPermission
          \<lparr>owners = Some [''42''],
           getChat = (\<lambda>c. Inr \<lparr>all_members_are_administrators = None, chat_type = ''private''\<rparr>),
           getChatAdministrators = (\<lambda>c. Inr (Some []))\<rparr>
          \<lparr>user_id = ''7''\<rparr> \<lparr>channel_id = ''7'', channel_prefix = ''''\<rparr>) = ADMIN
   \<and> fst (getUserPermission
          \<lparr>owners = None,
           getChat = (\<lambda>c. Inr \<lparr>all_members_are_administrators = Some False, chat_type = ''group''\<rparr>),
           getChatAdministrators = (\<lambda>c. Inr (Some [\<lparr>member_user_id = 5\<rparr>, \<lparr>member_user_id = 17\<rparr>]))\<rparr>
          \<lparr>user_id = ''17''\<rparr> \<lparr>channel_id = ''-1001'', channel_prefix = ''''\<rparr>) = ADMIN
   \<and> fst (getUserPermission
          \<lparr>owners = Some [''42''],
           getChat = (\<lambda>c. Inr \<lparr>all_members_are_administrators = None, chat_type = ''group''\<rparr>),
           getChatAdministrators = (\<lambda>c. Inr (Some [\<lparr>member_user_id = 5\<rparr>]))\<rparr>
          \<lparr>user_id = ''17''\<rparr> \<lparr>channel_id = ''-1001'', channel_prefix = ''''\<rparr>) = USER"
  using
      getUserPermission_algorithm [of "\<lparr>user_id = ''-322''\<rparr>"
        "\<lparr>owners = Some [''42''], getChat = (\<lambda>c. Inl (RemoteError ''down'')),
          getChatAdministrators = (\<lambda>c. Inl (RemoteError ''down''))\<rparr>" "\<lparr>channel_id = ''-1001'', channel_prefix = ''''\<rparr>"]
      getUserPermission_algorithm [of "\<lparr>user_id = ''42''\<rparr>"
        "\<lparr>owners = Some [''42''],
          getChat = (\<lambda>c. Inr \<lparr>all_members_are_administrators = None, chat_type = ''group''\<rparr>),
          getChatAdministrators = (\<lambda>c. Inr (Some [\<lparr>member_user_id = 7\<rparr>]))\<rparr>" "\<lparr>channel_id = ''-1001'', channel_prefix = ''''\<rparr>"]
      getUserPermission_algorithm [of "\<lparr>user_id = ''7''\<rparr>"
        "\<lparr>owners = Some [''42''],
          getChat = (\<lambda>c. Inr \<lparr>all_members_are_administrators = None, chat_type = ''private''\<rparr>),
          getChatAdministrators = (\<lambda>c. Inr (Some []))\<rparr>" "\<lparr>channel_id = ''7'', channel_prefix = ''''\<rparr>"]
      getUserPermission_algorithm [of "\<lparr>user_id = ''17''\<rparr>"
        "\<lparr>owners = None,
          getChat = (\<lambda>c. Inr \<lparr>all_members_are_administrators = Some False, chat_type = ''group''\<rparr>),
          getChatAdministrators = (\<lambda>c. Inr (Some [\<lparr>member_user_id = 5\<rparr>, \<lparr>member_user_id = 17\<rparr>]))\<rparr>"
        "\<lparr>channel_id = ''-1001'', channel_prefix = ''''\<rparr>"]
      getUserPermission_algorithm [of "\<lparr>user_id = ''17''\<rparr>"
        "\<lparr>owners = Some [''42''],
          getChat = (\<lambda>c. Inr \<lparr>all_members_are_administrators = None, chat_type = ''group''\<rparr>),
          getChatAdministrators = (\<lambda>c. Inr (Some [\<lparr>member_user_id = 5\<rparr>]))\<rparr>" "\<lparr>channel_id = ''-1001'', channel_prefix = ''''\<rparr>"]
  by (simp add: channelAuthorID_def getOwners_def reportsDefaultAdmin_def chatReturned_def
      listedAsAdmin_def toString_def digit_char_def)

text \<open>
  Claim C4, as the specification states it, fails: when the channel-metadata call
  fails, the administrator-list check is not the next step. The resolver returns USER
  for a listed administrator, where falling through to the next check gives ADMIN.
\<close>

theorem getUserPermission_fallthrough_counterexample:
  "getUserPermission
     \<lparr>owners = Some [''42''], getChat = (\<lambda>c. Inl (RemoteError ''timeout'')),
      getChatAdministrators = (\<lambda>c. Inr (Some [\<lparr>member_user_id = 7\<rparr>]))\<rparr>
     \<lparr>user_id = ''7''\<rparr> \<lparr>channel_id = ''-1001'', channel_prefix = ''''\<rparr> = (USER, [RemoteError ''timeout''])
   \<and> resolveRole_spec
     \<lparr>owners = Some [''42''], getChat = (\<lambda>c. Inl (RemoteError ''timeout'')),
      getChatAdministrators = (\<lambda>c. Inr (Some [\<lparr>member_user_id = 7\<rparr>]))\<rparr>
     \<lparr>user_id = ''7''\<rparr> \<lparr>channel_id = ''-1001'', channel_prefix = ''''\<rparr> = ADMIN"
  by (simp add: getUserPermission_def getUserPermission_try_def resolveRole_spec_def
      channelAuthorID_def getOwners_def toString_def digit_char_def)

text \<open>
  Claim C4, amended. The resolver always returns a role. A failure of the
  channel-metadata call or of the administrator-list call is caught and logged, and the
  resolution then ends at once with USER: a failed channel-metadata call skips the
  administrator-list check. Whenever an error was logged the role is USER.
\<close>

theorem getUserPermission_failure:
  "(user_id user \<noteq> channelAuthorID \<and> user_id user \<notin> set (getOwners p)
      \<and> getChat p (channel_id channel) = Inl e
      \<longrightarrow> getUserPermission p user channel = (USER, [e]))
   \<and> (user_id user \<noteq> channelAuthorID \<and> user_id user \<notin> set (getOwners p)
      \<and> chatReturned p channel \<and> \<not> reportsDefaultAdmin p channel
      \<and> getChatAdministrators p (channel_id channel) = Inl e
      \<longrightarrow> getUserPermission p user channel = (USER, [e]))
   \<and> (snd (getUserPermission p user channel) \<noteq> []
      \<longrightarrow> fst (getUserPermission p user channel) = USER)"
  by (auto simp: getUserPermission_def getUserPermission_try_def reportsDefaultAdmin_def
      chatReturned_def Let_def split: sum.splits option.splits)

theorem getUserPermission_failure_witness:
  "getUserPermission
     \<lparr>owners = Some [''42''], getChat = (\<lambda>c. Inl (RemoteError ''timeout'')),
      getChatAdministrators = (\<lambda>c. Inr (Some [\<lparr>member_user_id = 7\<rparr>]))\<rparr>
     \<lparr>user_id = ''7''\<rparr> \<lparr>channel_id = ''-1001'', channel_prefix = ''''\<rparr> = (USER, [RemoteError ''timeout''])
   \<and> getUserPermission
     \<lparr>owners = Some [''42''],
      getChat = (\<lambda>c. Inr \<lparr>all_members_are_administrators = None, chat_type = ''group''\<rparr>),
      getChatAdministrators = (\<lambda>c. Inl (RemoteError ''timeout''))\<rparr>
     \<lparr>user_id = ''7''\<rparr> \<lparr>channel_id = ''-1001'', channel_prefix = ''''\<rparr> = (USER, [RemoteError ''timeout''])"
  using
    getUserPermission_failure [of "\<lparr>user_id = ''7''\<rparr>"
      "\<lparr>owners = Some [''42''], getChat = (\<lambda>c. Inl (RemoteError ''timeout'')),
        getChatAdministrators = (\<lambda>c. Inr (Some [\<lparr>member_user_id = 7\<rparr>]))\<rparr>"
      "\<lparr>channel_id = ''-1001'', channel_prefix = ''''\<rparr>" "RemoteError ''timeout''"]
    getUserPermission_failure [of "\<lparr>user_id = ''7''\<rparr>"
      "\<lparr>owners = Some [''42''],
        getChat = (\<lambda>c. Inr \<lparr>all_members_are_administrators = None, chat_type = ''group''\<rparr>),
        getChatAdministrators = (\<lambda>c. Inl (RemoteError ''timeout''))\<rparr>"
      "\<lparr>channel_id = ''-1001'', channel_prefix = ''''\<rparr>" "RemoteError ''timeout''"]
  by (simp add: channelAuthorID_def getOwners_def reportsDefaultAdmin_def chatReturned_def)

section \<open>Properties of subscribing and unsubscribing\<close>

lemma isSubscribed_iff: "isSubscribed isEqual channel subs = (\<exists>sub \<in> set subs. isEqual channel sub)"
  by (induction subs) auto

lemma spliceSubscriber_None:
  "spliceSubscriber isEqual channel subs = None \<longleftrightarrow> \<not> isSubscribed isEqual channel subs"
  by (induction subs) auto

text \<open>
  Claim C5. Subscribing a channel twice to a game it was not subscribed to: the first
  call returns true and writes the subscriber data with the channel appended once to
  the list of the game; the second call returns false and writes nothing; afterwards
  the persisted list holds exactly one entry equal to the channel.
\<close>

theorem addSubscriber_twice:
  assumes self: "isEqual channel (toJSON channel)"
    and client: "file name = Some byGame"
    and subs: "byGame (game_name game) = Some entries"
    and fresh: "\<not> isSubscribed isEqual channel entries"
  shows "\<exists>file'.
      addSubscriber isEqual toJSON name file channel game = (Inr True, Some file')
    \<and> file' = file(name \<mapsto> byGame(game_name game \<mapsto> entries @ [toJSON channel]))
    \<and> addSubscriber isEqual toJSON name file' channel game = (Inr False, None)
    \<and> persisted file' (snd (addSubscriber isEqual toJSON name file' channel game)) = file'
    \<and> length (filter (isEqual channel) (entries @ [toJSON channel])) = 1"
proof -
  let ?file' = "file(name \<mapsto> byGame(game_name game \<mapsto> entries @ [toJSON channel]))"
  have first: "addSubscriber isEqual toJSON name file channel game = (Inr True, Some ?file')"
    using client subs fresh by (simp add: addSubscriber_def)
  have "isSubscribed isEqual channel (entries @ [toJSON channel])"
    using self by (simp add: isSubscribed_iff)
  then have second: "addSubscriber isEqual toJSON name ?file' channel game = (Inr False, None)"
    by (simp add: addSubscriber_def)
  have "filter (isEqual channel) entries = []"
    using fresh by (simp add: isSubscribed_iff filter_empty_conv)
  then have "length (filter (isEqual channel) (entries @ [toJSON channel])) = 1"
    using self by simp
  with first second show ?thesis by (simp add: persisted_def)
qed

theorem addSubscriber_twice_witness:
  "\<exists>file'.
      addSubscriber (\<lambda>c sub. channel_id c = sub) channel_id ''telegram''
        [''telegram'' \<mapsto> [''dota'' \<mapsto> [''c2'']]] \<lparr>channel_id = ''c1'', channel_prefix = ''''\<rparr>
        \<lparr>game_name = ''dota'', game_label = ''Dota 2''\<rparr> = (Inr True, Some file')
    \<and> file' = [''telegram'' \<mapsto> [''dota'' \<mapsto> [''c2'', ''c1'']]]
    \<and> addSubscriber (\<lambda>c sub. channel_id c = sub) channel_id ''telegram'' file'
        \<lparr>channel_id = ''c1'', channel_prefix = ''''\<rparr>
        \<lparr>game_name = ''dota'', game_label = ''Dota 2''\<rparr> = (Inr False, None)"
  using addSubscriber_twice [of "\<lambda>c sub. channel_id c = sub"
      "\<lparr>channel_id = ''c1'', channel_prefix = ''''\<rparr>" channel_id
      "[''telegram'' \<mapsto> [''dota'' \<mapsto> [''c2'']]]" "''telegram''" "[''dota'' \<mapsto> [''c2'']]"
      "\<lparr>game_name = ''dota'', game_label = ''Dota 2''\<rparr>" "[''c2'']"]
  by simp

text \<open>
  Claim C8. Unsubscribing a channel from a game whose list does not hold it returns
  false and does not write: the persisted subscriber data are unchanged.
\<close>

theorem removeSubscriber_never_subscribed:
  assumes client: "file name = Some byGame"
    and subs: "byGame (game_name game) = Some entries"
    and absent: "\<not> isSubscribed isEqual channel entries"
  shows "removeSubscriber isEqual name file channel game = (Inr False, None)
    \<and> persisted file (snd (removeSubscriber isEqual name file channel game)) = file"
  using client subs absent spliceSubscriber_None [of isEqual channel entries]
  by (simp add: removeSubscriber_def persisted_def)

theorem removeSubscriber_never_subscribed_witness:
  "removeSubscriber (\<lambda>c sub. channel_id c = sub) ''telegram''
     [''telegram'' \<mapsto> [''dota'' \<mapsto> [''c2'', ''c3'']]] \<lparr>channel_id = ''c1'', channel_prefix = ''''\<rparr>
     \<lparr>game_name = ''dota'', game_label = ''Dota 2''\<rparr>
   = (Inr False, None)"
  using removeSubscriber_never_subscribed [of "[''telegram'' \<mapsto> [''dota'' \<mapsto> [''c2'', ''c3'']]]"
      "''telegram''" "[''dota'' \<mapsto> [''c2'', ''c3'']]"
      "\<lparr>game_name = ''dota'', game_label = ''Dota 2''\<rparr>" "[''c2'', ''c3'']"
      "\<lambda>c sub. channel_id c = sub" "\<lparr>channel_id = ''c1'', channel_prefix = ''''\<rparr>"]
  by simp

section \<open>Properties of escaped patterns\<close>

text \<open>
  Whatever the string, its escaped form compiles, and compiles to the sequence of its
  characters: it matches a text exactly where the string occurs in it. So a mention tag
  or a channel prefix that holds pattern characters is taken literally.
\<close>

lemma syntaxCharacters_escapeAtom:
  "c \<in> set syntaxCharacters \<Longrightarrow> escapeAtom c = Some (Chr c)"
  by (auto simp: syntaxCharacters_def backslash_def)

lemma parse_plain:
  "c \<notin> set syntaxCharacters \<Longrightarrow>
     parse MNormal ((k, alts, items) # st) g (c # cs) = parse MNormal ((k, alts, Chr c # items) # st) g cs"
  by (subst parse.simps) (simp add: syntaxCharacters_def backslash_def del: parse.simps)

lemma parse_escaped:
  "c \<in> set syntaxCharacters \<Longrightarrow>
     parse MNormal ((k, alts, items) # st) g (backslash # c # cs)
       = parse MNormal ((k, alts, Chr c # items) # st) g cs"
  by (subst parse.simps) (simp add: syntaxCharacters_escapeAtom del: parse.simps escapeAtom.simps)

lemma parse_EscapeRegex:
  "parse MNormal ((k, alts, items) # st) g (EscapeRegex s @ rest)
     = parse MNormal ((k, alts, rev (map Chr s) @ items) # st) g rest"
proof (induction s arbitrary: items)
  case Nil
  show ?case by (simp add: EscapeRegex_def del: parse.simps)
next
  case (Cons c s)
  show ?case
  proof (cases "c \<in> set syntaxCharacters")
    case True
    then have "parse MNormal ((k, alts, items) # st) g (EscapeRegex (c # s) @ rest)
        = parse MNormal ((k, alts, items) # st) g (backslash # c # (EscapeRegex s @ rest))"
      by (simp add: EscapeRegex_def del: parse.simps)
    also have "\<dots> = parse MNormal ((k, alts, Chr c # items) # st) g (EscapeRegex s @ rest)"
      using True by (rule parse_escaped)
    also have "\<dots> = parse MNormal ((k, alts, rev (map Chr s) @ Chr c # items) # st) g rest"
      by (rule Cons.IH)
    finally show ?thesis by (simp del: parse.simps)
  next
    case False
    then have "parse MNormal ((k, alts, items) # st) g (EscapeRegex (c # s) @ rest)
        = parse MNormal ((k, alts, items) # st) g (c # (EscapeRegex s @ rest))"
      by (simp add: EscapeRegex_def del: parse.simps)
    also have "\<dots> = parse MNormal ((k, alts, Chr c # items) # st) g (EscapeRegex s @ rest)"
      using False by (rule parse_plain)
    also have "\<dots> = parse MNormal ((k, alts, rev (map Chr s) @ Chr c # items) # st) g rest"
      by (rule Cons.IH)
    finally show ?thesis by (simp del: parse.simps)
  qed
qed

lemma compile_EscapeRegex: "compile (EscapeRegex s) = Some (mkSeq (map Chr s), 0)"
  using parse_EscapeRegex [of KTop "[]" "[]" "[]" 0 s "[]"]
  by (simp add: compile_def disjunction_def)

lemma m_literal:
  "m (mkSeq (map Chr s)) n w cs = (if take (length s) w = s then [(drop (length s) w, cs)] else [])"
proof (induction s arbitrary: w)
  case Nil
  show ?case by simp
next
  case (Cons c s)
  show ?case
  proof (cases s)
    case Nil
    then show ?thesis by (cases w) auto
  next
    case (Cons d s')
    then have "mkSeq (map Chr (c # s)) = Seq (Chr c) (mkSeq (map Chr s))"
      by simp
    then show ?thesis
      using Cons.IH by (cases w) auto
  qed
qed

lemma scan_None_iff:
  "scan r n w = None \<longleftrightarrow> (\<forall>k \<le> length w. m r n (drop k w) [] = [])"
proof (induction w)
  case Nil
  show ?case by (auto split: list.splits)
next
  case (Cons c w)
  have "(\<forall>k \<le> length (c # w). m r n (drop k (c # w)) [] = [])
      \<longleftrightarrow> m r n (c # w) [] = [] \<and> (\<forall>k \<le> length w. m r n (drop k w) [] = [])"
    (is "?L \<longleftrightarrow> ?R")
  proof
    assume l: ?L
    have "m r n (drop 0 (c # w)) [] = []" using l by blast
    moreover have "m r n (drop k w) [] = []" if "k \<le> length w" for k
      using l [rule_format, of "Suc k"] that by simp
    ultimately show ?R by simp
  next
    assume r: ?R
    show ?L
    proof (intro allI impI)
      fix k assume "k \<le> length (c # w)"
      then show "m r n (drop k (c # w)) [] = []"
        using r by (cases k) auto
    qed
  qed
  then show ?case
    using Cons.IH by (auto split: list.splits)
qed

lemma occurs_iff:
  "(\<exists>k \<le> length w. take (length s) (drop k w) = s) \<longleftrightarrow> (\<exists>u v. w = u @ s @ v)"
proof
  assume "\<exists>k \<le> length w. take (length s) (drop k w) = s"
  then obtain k where "take (length s) (drop k w) = s" by blast
  then have "w = take k w @ s @ drop (length s) (drop k w)"
    by (metis append_take_drop_id)
  then show "\<exists>u v. w = u @ s @ v" by blast
next
  assume "\<exists>u v. w = u @ s @ v"
  then obtain u v where "w = u @ s @ v" by blast
  then have "length u \<le> length w \<and> take (length s) (drop (length u) w) = s" by simp
  then show "\<exists>k \<le> length w. take (length s) (drop k w) = s" by blast
qed

lemma test_EscapeRegex:
  "(case compile (EscapeRegex s) of None \<Rightarrow> False | Some re \<Rightarrow> test re w)
     \<longleftrightarrow> (\<exists>u v. w = u @ s @ v)"
proof -
  have "test (mkSeq (map Chr s), 0) w \<longleftrightarrow> \<not> (\<forall>k \<le> length w. m (mkSeq (map Chr s)) (length w) (drop k w) [] = [])"
    by (simp add: test_def exec_def scan_None_iff)
  also have "\<dots> \<longleftrightarrow> (\<exists>k \<le> length w. take (length s) (drop k w) = s)"
    by (auto simp: m_literal)
  also have "\<dots> \<longleftrightarrow> (\<exists>u v. w = u @ s @ v)"
    by (rule occurs_iff)
  finally show ?thesis
    by (simp add: compile_EscapeRegex)
qed

section \<open>The matcher and the meaning of patterns\<close>

text \<open>
  The rests that the matcher returns are those of the meaning of the pattern; the
  captures and the order of the attempts play no part in them.
\<close>

lemma fst_set_concat_map:
  "fst ` set (concat (map f xs)) = (\<Union>x \<in> set xs. fst ` set (f x))"
  by auto

lemma UN_fst_image: "(\<Union>x \<in> X. F (fst x)) = (\<Union>s' \<in> fst ` X. F s')"
  by auto

lemma iterate_rests:
  assumes "\<And>s cs. fst ` set (step s cs) = stepR s"
  shows "fst ` set (iterate k greedy step s cs) = iterateR k stepR s"
proof (induction k arbitrary: s cs)
  case 0
  show ?case by simp
next
  case (Suc k)
  define more where
    "more = concat (map (\<lambda>(s', cs'). if length s' < length s then iterate k greedy step s' cs' else [])
                      (step s cs))"
  have "fst ` set more
      = (\<Union>x \<in> set (step s cs).
           fst ` set (if length (fst x) < length s then iterate k greedy step (fst x) (snd x) else []))"
    by (simp only: more_def fst_set_concat_map case_prod_unfold)
  also have "\<dots>
      = (\<Union>x \<in> set (step s cs). if length (fst x) < length s then iterateR k stepR (fst x) else {})"
    by (intro SUP_cong refl) (simp add: Suc.IH)
  also have "\<dots> = (\<Union>s' \<in> stepR s. if length s' < length s then iterateR k stepR s' else {})"
    by (simp only: UN_fst_image [of "\<lambda>s'. if length s' < length s then iterateR k stepR s' else {}"] assms)
  finally have more: "fst ` set more
      = (\<Union>s' \<in> stepR s. if length s' < length s then iterateR k stepR s' else {})" .
  have "iterate (Suc k) greedy step s cs = (if greedy then more @ [(s, cs)] else (s, cs) # more)"
    by (simp only: iterate.simps Let_def more_def)
  then have "fst ` set (iterate (Suc k) greedy step s cs) = insert s (fst ` set more)"
    by (cases greedy) auto
  then show ?case
    by (simp only: more iterateR.simps)
qed

lemma m_rests: "fst ` set (m r n s cs) = rests r n s"
proof (induction r arbitrary: s cs)
  case (Seq a b)
  have "fst ` set (m (Seq a b) n s cs)
      = (\<Union>x \<in> set (m a n s cs). fst ` set (m b n (fst x) (snd x)))"
    by (simp only: m.simps fst_set_concat_map case_prod_unfold)
  also have "\<dots> = (\<Union>x \<in> set (m a n s cs). rests b n (fst x))"
    by (simp only: Seq.IH)
  also have "\<dots> = (\<Union>s' \<in> rests a n s. rests b n s')"
    by (simp only: UN_fst_image [of "rests b n"] Seq.IH)
  finally show ?case by simp
next
  case (Star greedy a)
  show ?case
    by (simp add: iterate_rests [where stepR = "rests a n"] Star.IH)
next
  case (Plus greedy a)
  have it: "fst ` set (iterate k greedy (\<lambda>s' cs'. m a n s' (resetCaps a cs')) s1 cs1) = iterateR k (rests a n) s1"
    for k s1 cs1
    by (rule iterate_rests) (simp add: Plus.IH)
  have "fst ` set (m (Plus greedy a) n s cs)
      = (\<Union>x \<in> set (m a n s (resetCaps a cs)).
           fst ` set (iterate (length (fst x)) greedy (\<lambda>s' cs'. m a n s' (resetCaps a cs')) (fst x) (snd x)))"
    by (simp only: m.simps fst_set_concat_map case_prod_unfold)
  also have "\<dots>
      = (\<Union>x \<in> set (m a n s (resetCaps a cs)). iterateR (length (fst x)) (rests a n) (fst x))"
    by (simp only: it)
  also have "\<dots> = (\<Union>s' \<in> rests a n s. iterateR (length s') (rests a n) s')"
    by (simp only: UN_fst_image [of "\<lambda>s'. iterateR (length s') (rests a n) s'"] Plus.IH)
  finally show ?case by simp
next
  case (Opt greedy a)
  have "fst ` set (filter (\<lambda>(s', cs'). length s' < length s) (m a n s (resetCaps a cs)))
      = {s' \<in> rests a n s. length s' < length s}"
    using Opt.IH [of s "resetCaps a cs", symmetric] by force
  then show ?case
    by (auto simp: Let_def image_Un)
next
  case (Grp k a)
  have "fst ` set (m (Grp k a) n s cs) = fst ` set (m a n s cs)"
    by (force simp: image_iff)
  then show ?case by (simp add: Grp.IH)
next
  case (NegLook a)
  have "m a n s cs = [] \<longleftrightarrow> rests a n s = {}"
    using NegLook.IH [of s cs] by auto
  then show ?case by simp
next
  case (Alt a b)
  show ?case by (simp add: image_Un Alt.IH)
next
  case (NGrp a)
  show ?case by (simp add: NGrp.IH)
next
  case (Chr c)
  show ?case by (cases s) auto
next
  case AnyChar
  show ?case by (cases s) auto
next
  case (Cls neg xs)
  show ?case by (cases s) auto
qed simp_all

text \<open>
  White space repeated leaves the text after any run of white space at its start; a
  sequence of characters leaves the text after that very sequence.
\<close>

lemma iterateR_whiteSpace:
  assumes step: "\<And>s. step s = (case s of [] \<Rightarrow> {} | x # s' \<Rightarrow> if x \<in> set whiteSpace then {s'} else {})"
  shows "length s \<le> k \<Longrightarrow>
     iterateR k step s = {s'. \<exists>ws. set ws \<subseteq> set whiteSpace \<and> s = ws @ s'}"
proof (induction k arbitrary: s)
  case 0
  then show ?case by auto
next
  case (Suc k)
  show ?case
  proof (cases s)
    case Nil
    have "step [] = {}" by (simp add: step)
    then have "iterateR (Suc k) step [] = {[]}" by simp
    then show ?thesis using Nil by auto
  next
    case (Cons x t)
    show ?thesis
    proof (cases "x \<in> set whiteSpace")
      case True
      have "length t \<le> k" using Suc.prems Cons by simp
      then have ih: "iterateR k step t
          = {s'. \<exists>ws. set ws \<subseteq> set whiteSpace \<and> t = ws @ s'}"
        by (rule Suc.IH)
      have "{s'. \<exists>ws. set ws \<subseteq> set whiteSpace \<and> x # t = ws @ s'}
          = insert (x # t) {s'. \<exists>ws. set ws \<subseteq> set whiteSpace \<and> t = ws @ s'}"
        (is "?A = ?B")
      proof
        show "?A \<subseteq> ?B"
        proof
          fix s' assume "s' \<in> ?A"
          then obtain ws where ws: "set ws \<subseteq> set whiteSpace" "x # t = ws @ s'" by blast
          show "s' \<in> ?B"
          proof (cases ws)
            case Nil
            then show ?thesis using ws by simp
          next
            case (Cons y ws')
            then have "set ws' \<subseteq> set whiteSpace \<and> t = ws' @ s'" using ws by simp
            then show ?thesis by blast
          qed
        qed
      next
        show "?B \<subseteq> ?A"
        proof
          fix s' assume "s' \<in> ?B"
          then consider "s' = x # t" | ws where "set ws \<subseteq> set whiteSpace" "t = ws @ s'" by blast
          then show "s' \<in> ?A"
          proof cases
            case 1
            then have "set [] \<subseteq> set whiteSpace \<and> x # t = [] @ s'" by simp
            then show ?thesis by blast
          next
            case 2
            then have "set (x # ws) \<subseteq> set whiteSpace \<and> x # t = (x # ws) @ s'" using True by simp
            then show ?thesis by blast
          qed
        qed
      qed
      moreover have "step (x # t) = {t}"
        using True by (simp add: step)
      then have "iterateR (Suc k) step (x # t) = insert (x # t) (iterateR k step t)"
        by simp
      ultimately show ?thesis
        using Cons ih by simp
    next
      case False
      have "{s'. \<exists>ws. set ws \<subseteq> set whiteSpace \<and> x # t = ws @ s'} = {x # t}"
      proof -
        have "ws = []" if "set ws \<subseteq> set whiteSpace" "x # t = ws @ s'" for ws s'
          using that False by (cases ws) auto
        then show ?thesis by auto
      qed
      moreover have "step (x # t) = {}"
        using False by (simp add: step)
      then have "iterateR (Suc k) step (x # t) = {x # t}"
        by simp
      ultimately show ?thesis
        using Cons by simp
    qed
  qed
qed

lemma rests_Star_whiteSpace:
  "rests (Star greedy (Cls False whiteSpace)) n s = {s'. \<exists>ws. set ws \<subseteq> set whiteSpace \<and> s = ws @ s'}"
proof -
  have "rests (Cls False whiteSpace) n s
      = (case s of [] \<Rightarrow> {} | x # s' \<Rightarrow> if x \<in> set whiteSpace then {s'} else {})" for s
    by (cases s) simp_all
  from iterateR_whiteSpace [of "rests (Cls False whiteSpace) n", OF this le_refl]
  show ?thesis by simp
qed

lemma rests_Star_whiteSpace_self: "s \<in> rests (Star greedy (Cls False whiteSpace)) n s"
  by (simp add: rests_Star_whiteSpace del: rests.simps)

lemma rests_literal: "rests (mkSeq (map Chr t)) n s = {s'. s = t @ s'}"
proof -
  have "rests (mkSeq (map Chr t)) n s = fst ` set (m (mkSeq (map Chr t)) n s [])"
    by (simp only: m_rests)
  also have "\<dots> = {s'. s = t @ s'}"
    by (auto simp: m_literal) (metis append_take_drop_id)
  finally show ?thesis .
qed

lemma rests_mkSeq_Cons: "rests (mkSeq (a # as)) n s = (\<Union>s' \<in> rests a n s. rests (mkSeq as) n s')"
  by (cases as) simp_all

lemma m_Bol_later: "length s \<noteq> n \<Longrightarrow> m (Seq Bol r) n s cs = []"
  by simp

lemma scan_anchored:
  "scan (Seq Bol r) (length w) w = None \<longleftrightarrow> rests (Seq Bol r) (length w) w = {}"
proof -
  have later: "m (Seq Bol r) (length w) (drop k w) [] = []" if "0 < k" "k \<le> length w" for k
    using that by (intro m_Bol_later) simp
  have "scan (Seq Bol r) (length w) w = None \<longleftrightarrow> m (Seq Bol r) (length w) w [] = []"
  proof
    assume "scan (Seq Bol r) (length w) w = None"
    then have "m (Seq Bol r) (length w) (drop 0 w) [] = []"
      unfolding scan_None_iff by blast
    then show "m (Seq Bol r) (length w) w [] = []" by simp
  next
    assume first: "m (Seq Bol r) (length w) w [] = []"
    have "m (Seq Bol r) (length w) (drop k w) [] = []" if "k \<le> length w" for k
      using that first later [of k] by (cases "k = 0") simp_all
    then show "scan (Seq Bol r) (length w) w = None"
      unfolding scan_None_iff by blast
  qed
  also have "\<dots> \<longleftrightarrow> fst ` set (m (Seq Bol r) (length w) w []) = {}"
    by simp
  also have "\<dots> \<longleftrightarrow> rests (Seq Bol r) (length w) w = {}"
    by (simp only: m_rests)
  finally show ?thesis .
qed

text \<open>
  A match consumes a part of the text that holds the characters the pattern needs. So a
  pattern that needs more occurrences of a character than a text has does not match
  it, and a replacement with such a pattern leaves the text as it is.
\<close>

lemma iterateR_suffix:
  assumes "\<And>s s'. s' \<in> step s \<Longrightarrow> \<exists>u. s = u @ s'"
  shows "s' \<in> iterateR k step s \<Longrightarrow> \<exists>u. s = u @ s'"
proof (induction k arbitrary: s)
  case 0
  then show ?case by simp
next
  case (Suc k)
  then consider "s' = s" | s1 where "s1 \<in> step s" "s' \<in> iterateR k step s1"
    by (auto split: if_splits)
  then show ?case
  proof cases
    case 1
    then show ?thesis by simp
  next
    case 2
    from assms [OF 2(1)] obtain u1 where "s = u1 @ s1" by blast
    moreover from Suc.IH [OF 2(2)] obtain u2 where "s1 = u2 @ s'" by blast
    ultimately have "s = (u1 @ u2) @ s'" by simp
    then show ?thesis by blast
  qed
qed

lemma rests_consumed:
  "s' \<in> rests r n s \<Longrightarrow> \<exists>u. s = u @ s' \<and> needsCount r c \<le> count_list u c"
proof (induction r arbitrary: s s')
  case (Chr x)
  then show ?case by (cases s) (auto split: if_splits)
next
  case AnyChar
  then show ?case by (cases s) (auto split: if_splits)
next
  case (Cls neg xs)
  then show ?case by (cases s) (auto split: if_splits)
next
  case (Seq a b)
  then obtain s1 where s1: "s1 \<in> rests a n s" "s' \<in> rests b n s1" by auto
  from Seq.IH(1) [OF s1(1)] obtain u1 where u1: "s = u1 @ s1" "needsCount a c \<le> count_list u1 c" by blast
  from Seq.IH(2) [OF s1(2)] obtain u2 where u2: "s1 = u2 @ s'" "needsCount b c \<le> count_list u2 c" by blast
  have "s = (u1 @ u2) @ s' \<and> needsCount (Seq a b) c \<le> count_list (u1 @ u2) c"
    using u1 u2 by simp
  then show ?case by blast
next
  case (Alt a b)
  then consider "s' \<in> rests a n s" | "s' \<in> rests b n s" by auto
  then show ?case
  proof cases
    case 1
    from Alt.IH(1) [OF 1] show ?thesis by force
  next
    case 2
    from Alt.IH(2) [OF 2] show ?thesis by force
  qed
next
  case (Star greedy a)
  have "\<exists>u. s = u @ s'"
  proof (rule iterateR_suffix [of "rests a n"])
    show "\<exists>u. t = u @ t'" if "t' \<in> rests a n t" for t t'
      using Star.IH [OF that] by blast
    show "s' \<in> iterateR (length s) (rests a n) s" using Star.prems by simp
  qed
  then show ?case by simp
next
  case (Plus greedy a)
  then obtain s1 where s1: "s1 \<in> rests a n s" "s' \<in> iterateR (length s1) (rests a n) s1" by auto
  from Plus.IH [OF s1(1)] obtain u1 where u1: "s = u1 @ s1" "needsCount a c \<le> count_list u1 c" by blast
  have "\<exists>u. s1 = u @ s'"
  proof (rule iterateR_suffix [of "rests a n"])
    show "\<exists>u. t = u @ t'" if "t' \<in> rests a n t" for t t'
      using Plus.IH [OF that] by blast
    show "s' \<in> iterateR (length s1) (rests a n) s1" by (rule s1(2))
  qed
  then obtain u2 where "s1 = u2 @ s'" by blast
  then have "s = (u1 @ u2) @ s' \<and> needsCount (Plus greedy a) c \<le> count_list (u1 @ u2) c"
    using u1 by simp
  then show ?case by blast
next
  case (Opt greedy a)
  then consider "s' = s" | "s' \<in> rests a n s" by auto
  then show ?case
  proof cases
    case 1
    then show ?thesis by simp
  next
    case 2
    from Opt.IH [OF 2] show ?thesis by force
  qed
next
  case (NegLook a)
  then show ?case by (simp split: if_splits)
qed (auto split: if_splits)

lemma scan_needs:
  assumes "count_list w c < needsCount r c"
  shows "scan r n w = None"
proof -
  have "m r n (drop k w) [] = []" for k
  proof (rule ccontr)
    assume "m r n (drop k w) [] \<noteq> []"
    then have "rests r n (drop k w) \<noteq> {}"
      using m_rests [of r n "drop k w" "[]"] by auto
    then obtain s' where "s' \<in> rests r n (drop k w)" by blast
    from rests_consumed [OF this, of c] obtain u
      where u: "drop k w = u @ s'" "needsCount r c \<le> count_list u c" by blast
    have "count_list w c = count_list (take k w) c + count_list (drop k w) c"
      by (metis append_take_drop_id count_list_append)
    then have "count_list u c \<le> count_list w c"
      using u(1) by simp
    with u(2) assms show False by simp
  qed
  then show ?thesis by (simp add: scan_None_iff)
qed

lemma replaceAll_needs:
  assumes "compile src = Some re" "count_list w c < needsCount (fst re) c"
  shows "replaceAll src t w = w"
  using assms scan_needs [of w c "fst re" "length w"] by (simp add: replaceAll_def)

lemma replaceFirst_needs:
  assumes "compile src = Some re" "count_list w c < needsCount (fst re) c"
  shows "replaceFirst src t w = w"
  using assms scan_needs [of w c "fst re" "length w"] by (simp add: replaceFirst_def exec_def)

lemma replaceAll_ruleNeed:
  assumes "count_list w c < ruleNeed src c"
  shows "replaceAll src t w = w"
proof (cases "compile src")
  case None
  then show ?thesis by (simp add: replaceAll_def)
next
  case (Some re)
  then have "count_list w c < needsCount (fst re) c"
    using assms by (simp add: ruleNeed_def)
  with Some show ?thesis by (rule replaceAll_needs)
qed

lemma replaceFirst_ruleNeed:
  assumes "count_list w c < ruleNeed src c"
  shows "replaceFirst src t w = w"
proof (cases "compile src")
  case None
  then show ?thesis by (simp add: replaceFirst_def)
next
  case (Some re)
  then have "count_list w c < needsCount (fst re) c"
    using assms by (simp add: ruleNeed_def)
  with Some show ?thesis by (rule replaceFirst_needs)
qed

section \<open>What the address clause matches\<close>

text \<open>
  The steps of the parser on the fixed parts of the template of the address clause.
\<close>

lemma EscapeRegex_plain: "set s \<inter> set syntaxCharacters = {} \<Longrightarrow> EscapeRegex s = s"
  by (induction s) (auto simp: EscapeRegex_def)

lemma take1_EscapeRegex: "c \<noteq> CHR ''?'' \<Longrightarrow> take (Suc 0) (EscapeRegex s @ c # r) \<noteq> ''?''"
proof (cases s)
  case Nil
  then show "c \<noteq> CHR ''?'' \<Longrightarrow> ?thesis" by (simp add: EscapeRegex_def)
next
  case (Cons x s')
  then show ?thesis
    by (cases "x \<in> set syntaxCharacters")
       (auto simp: EscapeRegex_def backslash_def syntaxCharacters_def)
qed

lemma take1_Cons: "c \<noteq> CHR ''?'' \<Longrightarrow> take (Suc 0) (c # cs) \<noteq> ''?''"
  by simp

lemma parse_Bol:
  "parse MNormal ((k, alts, items) # st) g (CHR ''^'' # cs) = parse MNormal ((k, alts, Bol # items) # st) g cs"
  by (subst parse.simps) (simp add: backslash_def del: parse.simps)

lemma parse_whiteSpace:
  "parse MNormal ((k, alts, items) # st) g (CHR 0x5C # CHR ''s'' # cs)
     = parse MNormal ((k, alts, Cls False whiteSpace # items) # st) g cs"
  by (subst parse.simps) (simp add: backslash_def del: parse.simps)

lemma parse_Star:
  "take 1 cs \<noteq> ''?'' \<Longrightarrow> quantifiable a \<Longrightarrow>
     parse MNormal ((k, alts, a # items) # st) g (CHR ''*'' # cs)
       = parse MNormal ((k, alts, Star True a # items) # st) g cs"
  by (subst parse.simps) (simp add: backslash_def del: parse.simps)

lemma parse_Opt:
  "take 1 cs \<noteq> ''?'' \<Longrightarrow> quantifiable a \<Longrightarrow>
     parse MNormal ((k, alts, a # items) # st) g (CHR ''?'' # cs)
       = parse MNormal ((k, alts, Opt True a # items) # st) g cs"
  by (subst parse.simps) (simp add: backslash_def del: parse.simps)

lemma parse_open:
  "take 1 cs \<noteq> ''?'' \<Longrightarrow>
     parse MNormal st g (CHR ''('' # cs) = parse MNormal ((KGrp (Suc g), [], []) # st) (Suc g) cs"
  by (subst parse.simps) (simp add: backslash_def del: parse.simps)

lemma parse_close:
  "parse MNormal ((k, alts, items) # (k', alts', items') # st) g (CHR '')'' # cs)
     = parse MNormal ((k', alts', wrap k (disjunction alts items) # items') # st) g cs"
  by (subst parse.simps) (simp add: backslash_def del: parse.simps)

lemma parse_bar:
  "parse MNormal ((k, alts, items) # st) g (CHR ''|'' # cs)
     = parse MNormal ((k, mkSeq (rev items) # alts, []) # st) g cs"
  by (subst parse.simps) (simp add: backslash_def del: parse.simps)

lemma parse_end: "parse MNormal [(KTop, alts, items)] g [] = Some (disjunction alts items, g)"
  by simp

text \<open>
  When the default prefix of the bot holds no pattern character, the address clause
  compiles, for every mention tag and every channel prefix, to the pattern that takes
  all three literally.
\<close>

lemma compile_addressClause:
  assumes "set (bot_prefix client) \<inter> set syntaxCharacters = {}"
  shows "compile (addressClause client channel)
     = Some (addressAST (bot_userTag client) (getPrefix client channel) (bot_prefix client), 8)"
proof -
  have bp: "bot_prefix client = EscapeRegex (bot_prefix client)"
    using assms by (simp add: EscapeRegex_plain)
  have "addressClause client channel
     = CHR ''^'' # CHR 0x5C # CHR ''s'' # CHR ''*'' # CHR ''('' # CHR ''('' #
       EscapeRegex (bot_userTag client) @ CHR '')'' # CHR ''|'' # CHR ''('' # CHR ''('' #
       EscapeRegex (getPrefix client channel) @ CHR '')'' # CHR ''('' # CHR 0x5C # CHR ''s'' # CHR ''*'' #
       EscapeRegex (bot_userTag client) @ CHR '')'' # CHR ''?'' # CHR '')'' # CHR ''|'' # CHR ''('' # CHR ''('' #
       EscapeRegex (bot_prefix client) @ CHR '')'' # CHR 0x5C # CHR ''s'' # CHR ''*'' # CHR ''('' #
       EscapeRegex (bot_userTag client) @ CHR '')'' # CHR '')'' # CHR '')'' # CHR 0x5C # CHR ''s'' # CHR ''*'' # []"
    using bp by (simp add: addressClause_def Let_def pat_def backslash_def)
  then show ?thesis
    by (simp add: compile_def parse_EscapeRegex take1_EscapeRegex take1_Cons parse_Bol parse_whiteSpace
        parse_Star parse_Opt parse_open parse_close parse_bar parse_end
        addressAST_def disjunction_def
        del: parse.simps take_append)
qed

lemma rests_address_alternatives:
  "rests (Alt (Grp 2 (mkSeq (map Chr tag)))
           (Alt (Grp 3 (Seq (Grp 4 (mkSeq (map Chr cp)))
                          (Opt True (Grp 5 (mkSeq (Star True (Cls False whiteSpace) # map Chr tag))))))
                (Grp 6 (Seq (Grp 7 (mkSeq (map Chr bp)))
                          (Seq (Star True (Cls False whiteSpace)) (Grp 8 (mkSeq (map Chr tag)))))))) n s \<noteq> {}
   \<longleftrightarrow> (\<exists>rest. s = tag @ rest \<or> s = cp @ rest
          \<or> (\<exists>ws'. set ws' \<subseteq> set whiteSpace \<and> s = bp @ ws' @ tag @ rest))"
  (is "?L \<longleftrightarrow> ?R")
proof -
  have a1: "rests (Grp 2 (mkSeq (map Chr tag))) n s \<noteq> {} \<longleftrightarrow> (\<exists>rest. s = tag @ rest)"
    by (simp only: rests.simps(12) rests_literal) auto
  have a2: "rests (Grp 3 (Seq (Grp 4 (mkSeq (map Chr cp)))
                (Opt True (Grp 5 (mkSeq (Star True (Cls False whiteSpace) # map Chr tag)))))) n s \<noteq> {}
      \<longleftrightarrow> (\<exists>rest. s = cp @ rest)"
    by (simp only: rests.simps(7,11,12) rests_literal) auto
  have a3: "rests (Grp 6 (Seq (Grp 7 (mkSeq (map Chr bp)))
                (Seq (Star True (Cls False whiteSpace)) (Grp 8 (mkSeq (map Chr tag)))))) n s \<noteq> {}
      \<longleftrightarrow> (\<exists>rest ws'. set ws' \<subseteq> set whiteSpace \<and> s = bp @ ws' @ tag @ rest)"
  proof -
    have "rests (Grp 6 (Seq (Grp 7 (mkSeq (map Chr bp)))
                (Seq (Star True (Cls False whiteSpace)) (Grp 8 (mkSeq (map Chr tag)))))) n s
        = (\<Union>s1 \<in> {s'. s = bp @ s'}. \<Union>s2 \<in> {s'. \<exists>ws. set ws \<subseteq> set whiteSpace \<and> s1 = ws @ s'}.
             {s'. s2 = tag @ s'})"
      by (simp only: rests.simps(7,12) rests_literal rests_Star_whiteSpace)
    then show ?thesis by auto
  qed
  have "?L \<longleftrightarrow> rests (Grp 2 (mkSeq (map Chr tag))) n s \<noteq> {}
      \<or> rests (Grp 3 (Seq (Grp 4 (mkSeq (map Chr cp)))
                (Opt True (Grp 5 (mkSeq (Star True (Cls False whiteSpace) # map Chr tag)))))) n s \<noteq> {}
      \<or> rests (Grp 6 (Seq (Grp 7 (mkSeq (map Chr bp)))
                (Seq (Star True (Cls False whiteSpace)) (Grp 8 (mkSeq (map Chr tag)))))) n s \<noteq> {}"
    by (simp only: rests.simps(8) Un_empty de_Morgan_conj)
  then show ?thesis
    by (simp only: a1 a2 a3) blast
qed

lemma rests_addressAST:
  "rests (addressAST tag cp bp) (length w) w \<noteq> {} \<longleftrightarrow> beginsWithAddress tag cp bp w"
proof -
  let ?alts = "Alt (Grp 2 (mkSeq (map Chr tag)))
           (Alt (Grp 3 (Seq (Grp 4 (mkSeq (map Chr cp)))
                          (Opt True (Grp 5 (mkSeq (Star True (Cls False whiteSpace) # map Chr tag))))))
                (Grp 6 (Seq (Grp 7 (mkSeq (map Chr bp)))
                          (Seq (Star True (Cls False whiteSpace)) (Grp 8 (mkSeq (map Chr tag)))))))"
  let ?ws = "Star True (Cls False whiteSpace)"
  have eq: "rests (addressAST tag cp bp) (length w) w
      = (\<Union>s1 \<in> rests ?ws (length w) w. \<Union>s2 \<in> rests ?alts (length w) s1. rests ?ws (length w) s2)"
    unfolding addressAST_def
    by (simp only: rests.simps(4,7,12) if_True UN_insert Un_empty_right UN_empty refl)
  have "rests (addressAST tag cp bp) (length w) w \<noteq> {}
      \<longleftrightarrow> (\<exists>s1 \<in> rests ?ws (length w) w. rests ?alts (length w) s1 \<noteq> {})"
  proof
    assume "rests (addressAST tag cp bp) (length w) w \<noteq> {}"
    then obtain x where "x \<in> rests (addressAST tag cp bp) (length w) w" by blast
    then obtain s1 s2 where "s1 \<in> rests ?ws (length w) w" "s2 \<in> rests ?alts (length w) s1"
      unfolding eq by blast
    then show "\<exists>s1 \<in> rests ?ws (length w) w. rests ?alts (length w) s1 \<noteq> {}" by blast
  next
    assume "\<exists>s1 \<in> rests ?ws (length w) w. rests ?alts (length w) s1 \<noteq> {}"
    then obtain s1 s2 where s: "s1 \<in> rests ?ws (length w) w" "s2 \<in> rests ?alts (length w) s1" by blast
    have "s2 \<in> rests ?ws (length w) s2" by (rule rests_Star_whiteSpace_self)
    with s have "s2 \<in> rests (addressAST tag cp bp) (length w) w"
      unfolding eq by blast
    then show "rests (addressAST tag cp bp) (length w) w \<noteq> {}" by blast
  qed
  also have "\<dots> \<longleftrightarrow> (\<exists>ws s1. set ws \<subseteq> set whiteSpace \<and> w = ws @ s1 \<and> rests ?alts (length w) s1 \<noteq> {})"
    by (simp only: rests_Star_whiteSpace mem_Collect_eq Bex_def) blast
  also have "\<dots> \<longleftrightarrow> beginsWithAddress tag cp bp w"
    unfolding rests_address_alternatives beginsWithAddress_def by blast
  finally show ?thesis .
qed

text \<open>
  So, when the default prefix of the bot holds no pattern character, the compiled
  address clause matches exactly the texts that begin with the address of the bot,
  whatever characters the mention tag and the channel prefix hold.
\<close>

lemma addressClause_exact:
  assumes "set (bot_prefix client) \<inter> set syntaxCharacters = {}"
  shows "addressClauseMatches client channel w
     = Some (beginsWithAddress (bot_userTag client) (getPrefix client channel) (bot_prefix client) w)"
proof -
  have "test (addressAST (bot_userTag client) (getPrefix client channel) (bot_prefix client), 8) w
      \<longleftrightarrow> rests (addressAST (bot_userTag client) (getPrefix client channel) (bot_prefix client))
            (length w) w \<noteq> {}"
    unfolding test_def exec_def fst_conv addressAST_def by (simp only: scan_anchored)
  then show ?thesis
    by (simp add: addressClauseMatches_def newRegExp_def compile_addressClause [OF assms]
        rests_addressAST)
qed

section \<open>Properties of the dispatch\<close>

lemma registerCommands_foldl: "foldl registerCommand acc cmds = acc @ cmds"
  by (induction cmds arbitrary: acc) (simp_all add: registerCommand_def)

lemma registerCommands_order: "registerCommands cmds = cmds"
  by (simp add: registerCommands_def registerCommands_foldl)

lemma handlersRun_append: "handlersRun (xs @ ys) = handlersRun xs @ handlersRun ys"
  by (induction xs rule: handlersRun.induct) simp_all

lemma handlersRun_onMessage:
  "handlersRun (onMessage client p channel msg c) =
     (if triggered client channel c (msg_text msg)
         \<and> hasPermission p
              \<lparr>user_id = (case from_id msg of Some i \<Rightarrow> toString i | None \<Rightarrow> channelAuthorID)\<rparr>
              channel (permission c)
      then [label c] else [])"
  by (simp add: onMessage_def triggered_def test_def execute_def Let_def
      split: sum.splits option.splits)

text \<open>
  Claim C2, as stated, fails: with the standard commands registered, the message
  \<^verbatim>\<open>/subscribe info\<close> of an administrator runs two handlers. The pattern of the
  earlier command About matches (its alternative \<^verbatim>\<open>(info)\s*$\<close>), and the handler of the
  later command Subscribe runs all the same.
\<close>

theorem emitMessage_two_handlers_counterexample:
  "handlersRun
     (emitMessage \<lparr>bot_name = ''telegram'', bot_prefix = ''/'', bot_userTag = ''@Bot''\<rparr>
        \<lparr>owners = Some [''42''],
         getChat = (\<lambda>c. Inr \<lparr>all_members_are_administrators = None, chat_type = ''private''\<rparr>),
         getChatAdministrators = (\<lambda>c. Inr (Some []))\<rparr>
        \<lparr>channel_id = ''7'', channel_prefix = ''''\<rparr>
        \<lparr>chat_id = 7, from_id = Some 7, msg_text = ''/subscribe info''\<rparr>
        (registerCommands commands))
   = [''About'', ''Subscribe'']"
  by code_simp

text \<open>
  Claim C2, amended. Every registered command is tried on an incoming message, in the
  order of registration, and the handler of every command whose compiled pattern
  matches the text runs, provided the sender has the permission the command requires:
  no command is skipped because an earlier one matched.
\<close>

theorem emitMessage_runs_every_match:
  "handlersRun (emitMessage client p channel msg (registerCommands cmds)) =
     map label
       (filter (\<lambda>c. triggered client channel c (msg_text msg)
                   \<and> hasPermission p
                        \<lparr>user_id = (case from_id msg of Some i \<Rightarrow> toString i
                                     | None \<Rightarrow> channelAuthorID)\<rparr>
                        channel (permission c))
          cmds)"
proof -
  have "handlersRun (emitMessage client p channel msg cs) =
     map label
       (filter (\<lambda>c. triggered client channel c (msg_text msg)
                   \<and> hasPermission p
                        \<lparr>user_id = (case from_id msg of Some i \<Rightarrow> toString i
                                     | None \<Rightarrow> channelAuthorID)\<rparr>
                        channel (permission c))
          cs)" for cs
  proof (induction cs)
    case Nil
    show ?case by (simp add: emitMessage_def)
  next
    case (Cons c cs)
    have "emitMessage client p channel msg (c # cs)
        = onMessage client p channel msg c @ emitMessage client p channel msg cs"
      by (simp add: emitMessage_def)
    then show ?case
      using Cons.IH by (simp add: handlersRun_append handlersRun_onMessage)
  qed
  then show ?thesis by (simp add: registerCommands_order)
qed

section \<open>Properties of the address clause\<close>

text \<open>
  With the default prefix \<^verbatim>\<open>/\<close> and the tag \<^verbatim>\<open>@Bot\<close> the address clause matches
  \<^verbatim>\<open>/help\<close>, \<^verbatim>\<open>@Bot help\<close> and \<^verbatim>\<open>/ @Bot help\<close>, and neither \<^verbatim>\<open>helper\<close> nor
  \<^verbatim>\<open>xhelp\<close>. A channel prefix that is a pattern character is taken literally.
\<close>

lemma addressClause_examples:
  "map (addressClauseMatches \<lparr>bot_name = ''telegram'', bot_prefix = ''/'', bot_userTag = ''@Bot''\<rparr>
          \<lparr>channel_id = ''7'', channel_prefix = ''/''\<rparr>)
     [''/help'', ''@Bot help'', ''/ @Bot help'', ''helper'', ''xhelp'']
   = [Some True, Some True, Some True, Some False, Some False]"
  by code_simp

lemma addressClause_channel_prefix_literal:
  "map (addressClauseMatches \<lparr>bot_name = ''telegram'', bot_prefix = ''/'', bot_userTag = ''@Bot''\<rparr>
          \<lparr>channel_id = ''7'', channel_prefix = ''.''\<rparr>)
     [''.help'', ''xhelp'', ''help'']
   = [Some True, Some False, Some False]"
  by code_simp

text \<open>
  With the default prefix \<^verbatim>\<open>?\<close> the clause holds the group \<^verbatim>\<open>(?)\<close>, which is not a
  pattern: the clause does not compile, and no command with a prefix can trigger.
\<close>

lemma addressClause_default_prefix_invalid:
  "addressClauseMatches \<lparr>bot_name = ''discord'', bot_prefix = ''?'', bot_userTag = ''@Bot''\<rparr>
      \<lparr>channel_id = ''7'', channel_prefix = ''''\<rparr> ''?help'' = None
   \<and> triggered \<lparr>bot_name = ''discord'', bot_prefix = ''?'', bot_userTag = ''@Bot''\<rparr>
      \<lparr>channel_id = ''7'', channel_prefix = ''''\<rparr> helpCommand ''?help'' = False"
  by code_simp

text \<open>
  Claim C3 at the input where the code departs from it: the default prefix of the bot
  is interpolated without \<^verbatim>\<open>EscapeRegex\<close>. With the default prefix \<^verbatim>\<open>.\<close>, the channel
  prefix \<^verbatim>\<open>/\<close> and the tag \<^verbatim>\<open>@Bot\<close>, the clause holds the bare \<^verbatim>\<open>.\<close>, which matches
  any character, and the clause matches \<^verbatim>\<open>x@Bot help\<close>, a message that begins with
  neither the tag nor a prefix.
\<close>

theorem addressClause_default_prefix_unescaped:
  "addressClause \<lparr>bot_name = ''telegram'', bot_prefix = ''.'', bot_userTag = ''@Bot''\<rparr>
      \<lparr>channel_id = ''7'', channel_prefix = ''/''\<rparr>
     = pat ''^%s*((@Bot)|((/)(%s*@Bot)?)|((.)%s*(@Bot)))%s*''
   \<and> addressClauseMatches \<lparr>bot_name = ''telegram'', bot_prefix = ''.'', bot_userTag = ''@Bot''\<rparr>
      \<lparr>channel_id = ''7'', channel_prefix = ''/''\<rparr> ''x@Bot help'' = Some True"
  by code_simp

section \<open>Properties of the help text\<close>

lemma visibleTo_satisfies: "visibleTo (Some role) cmd = satisfies role (act_role cmd)"
  by (cases role; cases "act_role cmd") (simp_all add: satisfies_def)

lemma filter_visibleTo_OWNER: "filter (visibleTo (Some OWNER)) cmds = cmds"
  by (induction cmds) (simp_all split: UserPermission.splits)

lemma filter_OWNER_visibleTo_USER:
  "filter (\<lambda>cmd. act_role cmd = OWNER) (filter (visibleTo (Some USER)) cmds) = []"
  by (induction cmds) (simp_all split: UserPermission.splits)

text \<open>A call of the generator that passes no role lists the commands for USER only.\<close>

lemma filter_visibleTo_no_role:
  "filter (visibleTo None) cmds = filter (\<lambda>cmd. act_role cmd = USER) cmds"
  by (induction cmds) (simp_all split: UserPermission.splits)

text \<open>
  The help generator, for a role that is handed to it, lists in the order of
  declaration exactly the commands whose required role that role satisfies in the
  order USER < ADMIN < OWNER. No command that requires OWNER is listed for the role
  USER, so \<^verbatim>\<open>notifyAll\<close> is not; every command is listed for the role OWNER.
\<close>

lemma groupHelp_role_gated:
  "groupHelp channelHelp client cmds channel prefix (Some role) =
     join [CHR 0x0A]
       (map (\<lambda>cmd. prefix @ channelHelp cmd channel (EscapeRegex (getPrefix client channel)))
          (filter (\<lambda>cmd. satisfies role (act_role cmd)) cmds))
   \<and> filter (\<lambda>cmd. act_role cmd = OWNER) (filter (visibleTo (Some USER)) cmds) = []
   \<and> filter (visibleTo (Some OWNER)) cmds = cmds
   \<and> ''notifyAll'' \<notin> set (map act_name (filter (visibleTo (Some USER)) groupCommands))"
proof -
  have "filter (visibleTo (Some role)) cmds = filter (\<lambda>cmd. satisfies role (act_role cmd)) cmds"
    by (rule filter_cong) (simp_all only: visibleTo_satisfies)
  then have "groupHelp channelHelp client cmds channel prefix (Some role) =
     join [CHR 0x0A]
       (map (\<lambda>cmd. prefix @ channelHelp cmd channel (EscapeRegex (getPrefix client channel)))
          (filter (\<lambda>cmd. satisfies role (act_role cmd)) cmds))"
    by (simp add: groupHelp_def Let_def)
  moreover have "''notifyAll'' \<notin> set (map act_name (filter (visibleTo (Some USER)) groupCommands))"
    by (simp add: groupCommands_def)
  ultimately show ?thesis
    by (simp only: filter_OWNER_visibleTo_USER filter_visibleTo_OWNER simp_thms)
qed

lemma groupCommands_no_role:
  "map act_name (filter (visibleTo None) groupCommands) =
     [''start'', ''help'', ''settings'', ''about'', ''games'', ''flip'', ''roll'', ''stats'',
      ''ping'', ''debug'']"
  by (simp add: groupCommands_def)

lemma groupCommands_OWNER:
  "map act_name (filter (\<lambda>cmd. satisfies OWNER (act_role cmd)) groupCommands) =
     [''start'', ''help'', ''settings'', ''about'', ''games'', ''flip'', ''roll'', ''stats'',
      ''ping'', ''debug'', ''subscribe'', ''unsubscribe'', ''prefix'', ''notifyAll'',
      ''notifyGameSubs'', ''telegramCmds'']"
  by (simp add: groupCommands_def satisfies_def)

text \<open>
  Claim C7 at the input where the code departs from it: the help command sent by a
  caller with the role OWNER. The handler hands no role to the help generator, so for
  every message, whoever sent it, the reply lists the ten commands that require USER
  and no others. The claim has the sixteen commands that the role OWNER satisfies
  listed for such a caller, among them \<^verbatim>\<open>notifyAll\<close>, which the reply does not hold.
\<close>

theorem helpCmd_lists_user_commands_only:
  "helpCmd (commands_channelHelp actionHelp client) message =
     Reply (''You can use the following commands:'' @ [CHR 0x0A]
            @ join [CHR 0x0A]
                (map (\<lambda>cmd. ''- '' @ actionHelp cmd (message_channel message)
                                      (EscapeRegex (getPrefix client (message_channel message))))
                   (filter (\<lambda>cmd. act_role cmd = USER) groupCommands)))
   \<and> map act_name (filter (\<lambda>cmd. act_role cmd = USER) groupCommands) =
       [''start'', ''help'', ''settings'', ''about'', ''games'', ''flip'', ''roll'', ''stats'',
        ''ping'', ''debug'']
   \<and> ''notifyAll'' \<in> set (map act_name (filter (\<lambda>cmd. satisfies OWNER (act_role cmd)) groupCommands))
   \<and> length (filter (\<lambda>cmd. satisfies OWNER (act_role cmd)) groupCommands) = 16"
proof -
  have "helpCmd (commands_channelHelp actionHelp client) message =
     Reply (''You can use the following commands:'' @ [CHR 0x0A]
            @ join [CHR 0x0A]
                (map (\<lambda>cmd. ''- '' @ actionHelp cmd (message_channel message)
                                      (EscapeRegex (getPrefix client (message_channel message))))
                   (filter (\<lambda>cmd. act_role cmd = USER) groupCommands)))"
    by (simp only: helpCmd_def commands_channelHelp_def groupHelp_def Let_def
        filter_visibleTo_no_role)
  moreover have "map act_name (filter (\<lambda>cmd. act_role cmd = USER) groupCommands) =
       [''start'', ''help'', ''settings'', ''about'', ''games'', ''flip'', ''roll'', ''stats'',
        ''ping'', ''debug'']"
    by (simp only: groupCommands_no_role [symmetric] filter_visibleTo_no_role)
  moreover have "''notifyAll'' \<in> set (map act_name (filter (\<lambda>cmd. satisfies OWNER (act_role cmd)) groupCommands))"
    by (simp only: groupCommands_OWNER) simp
  moreover have "length (filter (\<lambda>cmd. satisfies OWNER (act_role cmd)) groupCommands) = 16"
    using groupCommands_OWNER [THEN arg_cong, of length] by simp
  ultimately show ?thesis by (simp only: simp_thms)
qed

section \<open>Properties of the prefix command\<close>

lemma findIndex_less: "findIndex P xs = Some i \<Longrightarrow> i < length xs"
  by (induction xs arbitrary: i) (auto split: if_splits)

lemma findIndex_holds: "findIndex P xs = Some i \<Longrightarrow> P (xs ! i)"
  by (induction xs arbitrary: i) (auto split: if_splits)

text \<open>
  The reset of the prefix for a channel that has a record in the subscriber file, when
  the bot can write to the channel: the prefix of the channel becomes the default
  prefix, the change is announced, the stored prefix is cleared, and the record is
  removed when it has no game subscriptions and kept otherwise.
\<close>

lemma prefixCmd_reset_registered:
  assumes arg: "v \<noteq> []" "trim v = ''reset''"
    and channels: "st_file st (bot_name client) = Some channels"
    and found: "findIndex (\<lambda>ch. isEqual ((st_channel st)\<lparr>channel_prefix := bot_prefix client\<rparr>) (sub_id ch))
                  channels = Some i"
  shows "prefixCmd remove isEqual True client (Some v) st =
     (None,
      st\<lparr>st_events := st_events st @
             [SendMessage (channel_id (st_channel st))
                (''Changing the bot's prefix on this channel to `'' @ bot_prefix client @ ''`.'')],
         st_channel := (st_channel st)\<lparr>channel_prefix := bot_prefix client\<rparr>,
         st_file := (st_file st)(bot_name client \<mapsto>
            (if gameSubs (channels ! i) = [] then splice1 i channels
             else channels[i := (channels ! i)\<lparr>sub_prefix := Some []\<rparr>]))\<rparr>)"
  using arg channels found by (simp add: prefixCmd_def Let_def falsy_def)

text \<open>
  Claim C6 at the input where the code departs from it: the reset of the prefix on a
  channel that has no record in the subscriber file. The handler adds a record for the
  channel that has no game subscriptions and holds the default prefix: a record with no
  subscriptions and no custom prefix is created, not pruned.
\<close>

theorem prefixCmd_reset_unregistered:
  "prefixCmd
     (removeData (\<lambda>c s. channel_id c = s) \<lparr>bot_name = ''telegram'', bot_prefix = ''/'', bot_userTag = ''@Bot''\<rparr>)
     (\<lambda>c s. channel_id c = s) True
     \<lparr>bot_name = ''telegram'', bot_prefix = ''/'', bot_userTag = ''@Bot''\<rparr> (Some '' reset'')
     \<lparr>st_channel = \<lparr>channel_id = ''c1'', channel_prefix = ''''\<rparr>,
      st_file = [''telegram'' \<mapsto> []], st_events = []\<rparr>
   = (None,
      \<lparr>st_channel = \<lparr>channel_id = ''c1'', channel_prefix = ''/''\<rparr>,
       st_file = [''telegram'' \<mapsto>
          [\<lparr>gameSubs = [], sub_id = ''c1'', sub_label = None, sub_prefix = Some ''/'',
            disabled = None\<rparr>]],
       st_events = [SendMessage ''c1'' ''Changing the bot's prefix on this channel to `/`.'']\<rparr>)"
  by (simp add: prefixCmd_def trim_def whiteSpace_def Let_def)

text \<open>
  Claim C10. When the prefix command is given a non-empty new prefix and the permission
  check reports that the bot cannot write to the channel, the handler hands the channel
  to \<^verbatim>\<open>removeData\<close> and returns: the subscriber file is what \<^verbatim>\<open>removeData\<close> left, no
  message is sent, no prefix is stored, and the channel itself is unchanged.
\<close>

theorem prefixCmd_cannot_write:
  assumes "v \<noteq> []" and "trim v \<noteq> []"
  shows "prefixCmd remove isEqual False client (Some v) st =
     (None, st\<lparr>st_file := snd (remove (st_file st) (st_channel st))\<rparr>)"
  using assms by (simp add: prefixCmd_def Let_def)

theorem prefixCmd_cannot_write_witness:
  "prefixCmd
     (removeData (\<lambda>c s. channel_id c = s) \<lparr>bot_name = ''telegram'', bot_prefix = ''/'', bot_userTag = ''@Bot''\<rparr>)
     (\<lambda>c s. channel_id c = s) False
     \<lparr>bot_name = ''telegram'', bot_prefix = ''/'', bot_userTag = ''@Bot''\<rparr> (Some '' ?'')
     \<lparr>st_channel = \<lparr>channel_id = ''c1'', channel_prefix = ''!''\<rparr>,
      st_file = [''telegram'' \<mapsto>
         [\<lparr>gameSubs = [''dota''], sub_id = ''c1'', sub_label = None, sub_prefix = Some ''!'',
           disabled = None\<rparr>,
          \<lparr>gameSubs = [''csgo''], sub_id = ''c2'', sub_label = None, sub_prefix = None,
           disabled = None\<rparr>]],
      st_events = []\<rparr>
   = (None,
      \<lparr>st_channel = \<lparr>channel_id = ''c1'', channel_prefix = ''!''\<rparr>,
       st_file = [''telegram'' \<mapsto>
         [\<lparr>gameSubs = [''csgo''], sub_id = ''c2'', sub_label = None, sub_prefix = None,
           disabled = None\<rparr>]],
       st_events = []\<rparr>)"
proof -
  have arg: "'' ?'' \<noteq> []" "trim '' ?'' \<noteq> []"
    by (simp_all add: trim_def whiteSpace_def)
  show ?thesis
    using prefixCmd_cannot_write [OF arg,
        of "removeData (\<lambda>c s. channel_id c = s)
              \<lparr>bot_name = ''telegram'', bot_prefix = ''/'', bot_userTag = ''@Bot''\<rparr>"
           "\<lambda>c s. channel_id c = s"
           "\<lparr>bot_name = ''telegram'', bot_prefix = ''/'', bot_userTag = ''@Bot''\<rparr>"
           "\<lparr>st_channel = \<lparr>channel_id = ''c1'', channel_prefix = ''!''\<rparr>,
             st_file = [''telegram'' \<mapsto>
               [\<lparr>gameSubs = [''dota''], sub_id = ''c1'', sub_label = None, sub_prefix = Some ''!'',
                 disabled = None\<rparr>,
                \<lparr>gameSubs = [''csgo''], sub_id = ''c2'', sub_label = None, sub_prefix = None,
                 disabled = None\<rparr>]],
             st_events = []\<rparr>"]
    by (simp add: removeData_def splice1_def)
qed

section \<open>Properties of the conversion of markdown\<close>

lemma markdownRules_compile: "list_all (\<lambda>(src, t). compile src \<noteq> None) markdownRules"
  by code_simp

lemma split_not_Nil: "split sep s \<noteq> []"
  by (induction s) (auto split: list.splits)

lemma concat_lines_last:
  "ls \<noteq> [] \<Longrightarrow> concat (map (\<lambda>line. line @ [c]) ls) \<noteq> []
     \<and> last (concat (map (\<lambda>line. line @ [c]) ls)) = c"
  by (induction ls rule: rev_induct) simp_all

text \<open>
  Every replacement on the whole text needs one of the characters \<^verbatim>\<open>! * _\<close> or two
  line breaks; the replacements on a line need \<^verbatim>\<open>#\<close> or \<^verbatim>\<open>*\<close>. On a text without
  them the conversion only adds the line breaks.
\<close>

lemma markdownRules_need:
  "list_all (\<lambda>(src, t). 0 < ruleNeed src (CHR ''!'') \<or> 0 < ruleNeed src (CHR ''*'')
       \<or> 0 < ruleNeed src (CHR ''_'') \<or> 1 < ruleNeed src (CHR 0x0A)) markdownRules"
  by code_simp

lemma formatLine_need:
  "0 < ruleNeed (pat ''^%s*##?#?%s*(.*)'') (CHR ''#'') \<and> 0 < ruleNeed (pat ''^%s*%*%s+'') (CHR ''*'')"
  by code_simp

lemma foldl_unchanged: "(\<And>r. r \<in> set rs \<Longrightarrow> f x r = x) \<Longrightarrow> foldl f x rs = x"
  by (induction rs) simp_all

lemma markdownRules_unchanged:
  assumes "count_list w (CHR ''!'') = 0" "count_list w (CHR ''*'') = 0" "count_list w (CHR ''_'') = 0"
    and "count_list w (CHR 0x0A) \<le> 1"
  shows "foldl (\<lambda>md (src, t). replaceAll src t md) w markdownRules = w"
proof (rule foldl_unchanged)
  fix r assume "r \<in> set markdownRules"
  then have need: "0 < ruleNeed (fst r) (CHR ''!'') \<or> 0 < ruleNeed (fst r) (CHR ''*'')
       \<or> 0 < ruleNeed (fst r) (CHR ''_'') \<or> 1 < ruleNeed (fst r) (CHR 0x0A)"
    using markdownRules_need by (auto simp: list_all_iff)
  have "replaceAll (fst r) (snd r) w = w"
    using need assms
    by (elim disjE) (auto intro: replaceAll_ruleNeed [of w "CHR ''!''"] replaceAll_ruleNeed [of w "CHR ''*''"]
        replaceAll_ruleNeed [of w "CHR ''_''"] replaceAll_ruleNeed [of w "CHR 0x0A"])
  then show "(case r of (src, t) \<Rightarrow> replaceAll src t w) = w"
    by (simp add: case_prod_unfold)
qed

lemma formatLine_unchanged:
  assumes "count_list l (CHR ''#'') = 0" "count_list l (CHR ''*'') = 0"
  shows "formatLine l = l"
  using assms formatLine_need
  by (simp add: formatLine_def replaceFirst_ruleNeed [of _ "CHR ''#''"] replaceFirst_ruleNeed [of _ "CHR ''*''"])

lemma split_no_sep: "sep \<notin> set s \<Longrightarrow> split sep s = [s]"
  by (induction s) auto

lemma split_trailing_sep: "sep \<notin> set s \<Longrightarrow> split sep (s @ [sep]) = [s, []]"
  by (induction s) auto

lemma count_list_zero_iff: "count_list xs x = 0 \<longleftrightarrow> x \<notin> set xs"
  by (induction xs) auto

lemma msgFromMarkdown_plain:
  assumes "t \<noteq> []" "plainText t"
  shows "msgFromMarkdown t = t @ [CHR 0x0A]"
    and "msgFromMarkdown (t @ [CHR 0x0A]) = t @ [CHR 0x0A, CHR 0x0A]"
proof -
  have c: "count_list t (CHR ''!'') = 0" "count_list t (CHR ''*'') = 0" "count_list t (CHR ''_'') = 0"
    "count_list t (CHR ''#'') = 0" "count_list t (CHR 0x0A) = 0"
    using assms(2) by (auto simp: plainText_def count_list_zero_iff)
  have nl: "CHR 0x0A \<notin> set t"
    using assms(2) by (simp add: plainText_def)
  have "foldl (\<lambda>md (src, t). replaceAll src t md) t markdownRules = t"
    using c by (intro markdownRules_unchanged) simp_all
  then show "msgFromMarkdown t = t @ [CHR 0x0A]"
    using assms(1) c nl by (simp add: msgFromMarkdown_def Let_def split_no_sep formatLine_unchanged)
  have "foldl (\<lambda>md (src, t). replaceAll src t md) (t @ [CHR 0x0A]) markdownRules = t @ [CHR 0x0A]"
    using c by (intro markdownRules_unchanged) simp_all
  then show "msgFromMarkdown (t @ [CHR 0x0A]) = t @ [CHR 0x0A, CHR 0x0A]"
    using c nl by (simp add: msgFromMarkdown_def Let_def split_trailing_sep formatLine_unchanged)
qed

lemma msgFromMarkdown_shape:
  "t \<noteq> [] \<Longrightarrow> msgFromMarkdown t \<noteq> [] \<and> last (msgFromMarkdown t) = CHR 0x0A"
proof -
  assume t: "t \<noteq> []"
  define ls where
    "ls = map formatLine
            (split (CHR 0x0A) (foldl (\<lambda>md (src, t). replaceAll src t md) t markdownRules))"
  have "ls \<noteq> []"
    by (simp add: ls_def split_not_Nil)
  then have shape: "concat (map (\<lambda>line. line @ [CHR 0x0A]) ls) \<noteq> []
      \<and> last (concat (map (\<lambda>line. line @ [CHR 0x0A]) ls)) = CHR 0x0A"
    by (rule concat_lines_last)
  have "msgFromMarkdown t = concat (map (\<lambda>line. line @ [CHR 0x0A]) ls)"
    using t unfolding msgFromMarkdown_def ls_def Let_def by (simp only: if_False)
  with shape show ?thesis by simp
qed

text \<open>
  Claim C9, as stated, fails: the conversion of \<^verbatim>\<open>a\<close> is \<^verbatim>\<open>a\<close> followed by a line
  break, and converting that again gives \<^verbatim>\<open>a\<close> followed by two line breaks.
\<close>

theorem msgFromMarkdown_not_idempotent_counterexample:
  "msgFromMarkdown ''a'' = [CHR ''a'', CHR 0x0A]
   \<and> msgFromMarkdown (msgFromMarkdown ''a'') = [CHR ''a'', CHR 0x0A, CHR 0x0A]
   \<and> msgFromMarkdown (msgFromMarkdown ''a'') \<noteq> msgFromMarkdown ''a''"
  by code_simp

text \<open>
  Claim C9, amended. The conversion is not idempotent. It maps the empty text to the
  empty text; it maps every other text to a non-empty text that ends with a line
  break; and on a non-empty plain text of one line every conversion adds one line
  break, so that converting twice differs from converting once.
\<close>

theorem msgFromMarkdown_adds_line_break:
  "msgFromMarkdown [] = []
   \<and> (t \<noteq> [] \<longrightarrow> msgFromMarkdown t \<noteq> [] \<and> last (msgFromMarkdown t) = CHR 0x0A)
   \<and> (t \<noteq> [] \<and> plainText t \<longrightarrow>
        msgFromMarkdown t = t @ [CHR 0x0A]
        \<and> msgFromMarkdown (msgFromMarkdown t) = t @ [CHR 0x0A, CHR 0x0A]
        \<and> msgFromMarkdown (msgFromMarkdown t) \<noteq> msgFromMarkdown t)"
proof -
  have "msgFromMarkdown [] = []"
    by (simp add: msgFromMarkdown_def)
  moreover have "msgFromMarkdown t = t @ [CHR 0x0A]
        \<and> msgFromMarkdown (msgFromMarkdown t) = t @ [CHR 0x0A, CHR 0x0A]
        \<and> msgFromMarkdown (msgFromMarkdown t) \<noteq> msgFromMarkdown t" if "t \<noteq> []" "plainText t"
    using msgFromMarkdown_plain [OF that] by simp
  ultimately show ?thesis
    using msgFromMarkdown_shape [of t] by blast
qed

theorem msgFromMarkdown_adds_line_break_witness:
  "msgFromMarkdown ''**b**'' \<noteq> [] \<and> last (msgFromMarkdown ''**b**'') = CHR 0x0A
   \<and> msgFromMarkdown ''New update'' = ''New update'' @ [CHR 0x0A]
   \<and> msgFromMarkdown (msgFromMarkdown ''New update'') = ''New update'' @ [CHR 0x0A, CHR 0x0A]"
proof -
  have plain: "plainText ''New update''"
    by (simp add: plainText_def)
  have nonempty: "''**b**'' \<noteq> []" "''New update'' \<noteq> []"
    by simp_all
  show ?thesis
    using msgFromMarkdown_adds_line_break [of "''**b**''"]
      msgFromMarkdown_adds_line_break [of "''New update''"] plain nonempty
    by blast
qed

end
